theory Spec2Isabelle
  imports Main "HOL-Library.Word"
begin

unbundle bit_operations_syntax

section \<open>Common data: handles, variable descriptors, errors\<close>

text \<open>
  An IR handle is a 32-bit index, an AD-tagged handle a 64-bit composite whose upper half
  is the AD node and whose lower half is the IR handle (\<open>combine\<close> of \<open>CallOp\<close>,
  the casts \<open>(uint32_t) index\<close> and the shifts \<open>index >> 32\<close> of the dispatcher).
\<close>

type_synonym u32 = "32 word"
type_synonym u64 = "64 word"

datatype JitBackend = NoBackend | CUDA | LLVM

datatype VarType = Void | Bool | Int32 | UInt32 | Int64 | UInt64 | Float32 | Float64

datatype VarState = Invalid | Literal | Unevaluated | Evaluated | Dirty

text \<open>
  Every \<open>jit_raise\<close>, \<open>nb::raise\<close> and exception of a callback is a value of
  \<open>error\<close>. \<open>BackendError\<close> stands for a failure reported by the IR backend or the AD
  engine, \<open>OutOfBounds\<close> for a vector access outside its size (undefined in C++),
  \<open>UserError\<close> for an exception thrown by a user callable, \<open>CastError\<close> for a failed
  \<open>nb::cast\<close>. \<open>LoopSizeConflict\<close> is the first size check of the loop traversal (the
  body changed the size of a state variable), \<open>LoopSizeIncompatible\<close> the second one (the
  size does not fit the size the loop operates on). \<open>RuntimeError\<close> is the Python
  exception into which \<open>if_stmt\<close> converts whatever was thrown inside it.
\<close>

datatype error =
    ShapeMismatch
  | ModeConflict
  | SymbolicModeRequired
  | EmptyReturn
  | ReturnArityMismatch
  | ReturnTypeMismatch
  | ReturnBackendMismatch
  | ReturnNotScalar
  | RegistryMiss
  | InvalidVarState
  | LoopStateChanged
  | LoopSizeConflict
  | LoopSizeIncompatible
  | LabelSizeMismatch
  | InternalInvariant
  | CondEmpty
  | CondInvalid
  | InvalidMode
  | CastError
  | BackendError
  | OutOfBounds
  | UserError nat
  | RuntimeError error

section \<open>The IR backend and the AD engine as the dispatcher uses them\<close>

text \<open>
  Modelled from the spec: the IR backend is not part of the sources. Following the spec's
  data model, a handle refers to a node of the IR graph that carries a type, a backend
  tag, a state and a logical size. The graph is a table that only grows: handle \<open>h\<close> is
  the \<open>h\<close>-th node created, handle 0 is no node. What a node computes is kept as a term
  \<open>vdef\<close> for the operations the getter strategy issues (literal, comparison,
  conjunction, masked gather, a view of mapped memory); every other node is opaque and
  identified by its position.
\<close>

datatype vdef =
    DLiteral u64
  | DNeq vdef vdef
  | DAnd vdef vdef
  | DGather vdef vdef vdef
  | DMemMap nat
  | DOpaque nat

record var =
  v_type :: VarType
  v_backend :: JitBackend
  v_size :: nat
  v_state :: VarState
  v_def :: vdef

text \<open>
  The dispatcher's own actions that the claims are about are logged in \<open>trace\<close>: every
  invocation of the user callback with the instance pointer and the argument vector it
  received, and every call of \<open>jit_var_set_self\<close> with its two arguments.
\<close>

datatype event = Invoke nat "u64 list" | SetSelf u32 u32

datatype agg_src = SrcLiteral u64 | SrcData u32

record AggregationEntry =
  agg_offset :: nat
  agg_size :: int
  agg_src :: agg_src

record jit_state =
  vars :: "var list"
  mask_stack :: "u32 list"
  self_value :: u32
  self_index :: u32
  record_stack :: "nat list"
  discarded :: "nat list"
  scope :: nat
  scope_count :: nat
  ad_nodes :: nat
  heap_blocks :: nat
  aggregates :: "(nat \<times> AggregationEntry list) list"
  flag_vcall_record :: bool
  flag_symbolic :: bool
  trace :: "event list"

text \<open>
  What the external collaborators answer during one dispatch, as parameters: the instance
  registry of the domain (\<open>jit_registry_ptr\<close>, pointer 0 is \<open>nullptr\<close>; and
  \<open>jit_registry_id_bound\<close>), the buckets \<open>jit_var_call_reduce\<close> forms (the id and the
  number of lanes of each), the implicit dependencies \<open>ad_copy_implicit_deps\<close> reports,
  the outcome of \<open>ad_custom_op\<close> (it may throw), and the gradient the AD engine holds
  for an AD node (\<open>ad_grad\<close>), as the description of an IR node.
\<close>

record env =
  env_registry_ptr :: "u32 \<Rightarrow> nat"
  env_registry_id_bound :: nat
  env_call_buckets :: "(u32 \<times> nat) list"
  env_implicit_deps :: "u32 list"
  env_custom_op :: "error + bool"
  env_ad_grad :: "u32 \<Rightarrow> var"

text \<open>
  A computation on the JIT state that returns a value or throws. \<open>jbind\<close> sequences two
  of them: an exception of the first skips the second.
\<close>

type_synonym 'a jit = "jit_state \<Rightarrow> (error + 'a) \<times> jit_state"

definition ret :: "'a \<Rightarrow> 'a jit" where
  "ret x s = (Inr x, s)"

definition throw :: "error \<Rightarrow> 'a jit" where
  "throw e s = (Inl e, s)"

definition jbind :: "'a jit \<Rightarrow> ('a \<Rightarrow> 'b jit) \<Rightarrow> 'b jit" where
  "jbind m f s = (case m s of (Inl e, s') \<Rightarrow> (Inl e, s') | (Inr x, s') \<Rightarrow> f x s')"

text \<open>Element access of \<open>dr_vector\<close>: outside the size it is undefined, here an error.\<close>

definition vec_get :: "'a list \<Rightarrow> nat \<Rightarrow> 'a jit" where
  "vec_get xs i = (if i < length xs then ret (xs ! i) else throw OutOfBounds)"

definition vec_set :: "'a list \<Rightarrow> nat \<Rightarrow> 'a \<Rightarrow> 'a list jit" where
  "vec_set xs i v = (if i < length xs then ret (xs[i := v]) else throw OutOfBounds)"

text \<open>The halves of an AD-tagged handle, and \<open>CallOp::combine\<close>.\<close>

definition ir_part :: "u64 \<Rightarrow> u32" where
  "ir_part h = ucast h"

definition ad_part :: "u64 \<Rightarrow> u32" where
  "ad_part h = ucast (drop_bit 32 h)"

definition combine :: "u32 \<Rightarrow> u32 \<Rightarrow> u64" where
  "combine ad_index jit_index = push_bit 32 (ucast ad_index) + ucast jit_index"

text \<open>
  Modelled from the spec: the variable operations of the IR backend. A lookup of a handle
  that is no node fails; \<open>jit_var_size\<close> of handle 0 is 0 and \<open>jit_var_is_zero_literal\<close>
  of handle 0 is false (the dispatcher calls both before it tests the handle). A new node
  gets the next handle, which is never 0; the table is full at \<open>2^32 - 1\<close> nodes.
\<close>

definition jit_var :: "jit_state \<Rightarrow> u32 \<Rightarrow> var option" where
  "jit_var s h =
    (if h = 0 \<or> length (vars s) < unat h then None else Some (vars s ! (unat h - 1)))"

definition jit_var_lookup :: "u32 \<Rightarrow> var jit" where
  "jit_var_lookup h s = (case jit_var s h of None \<Rightarrow> (Inl BackendError, s) | Some v \<Rightarrow> (Inr v, s))"

definition jit_var_new :: "var \<Rightarrow> u32 jit" where
  "jit_var_new v s =
    (if Suc (length (vars s)) < 2 ^ 32
     then (Inr (of_nat (Suc (length (vars s)))), s\<lparr>vars := vars s @ [v]\<rparr>)
     else (Inl BackendError, s))"

definition jit_var_size :: "u32 \<Rightarrow> nat jit" where
  "jit_var_size h = (if h = 0 then ret 0 else jbind (jit_var_lookup h) (\<lambda>v. ret (v_size v)))"

definition jit_var_type :: "u32 \<Rightarrow> VarType jit" where
  "jit_var_type h = jbind (jit_var_lookup h) (\<lambda>v. ret (v_type v))"

definition jit_var_state :: "u32 \<Rightarrow> VarState jit" where
  "jit_var_state h = jbind (jit_var_lookup h) (\<lambda>v. ret (v_state v))"

definition jit_set_backend :: "u32 \<Rightarrow> var jit" where
  "jit_set_backend h = jit_var_lookup h"

definition jit_var_is_zero_literal :: "u32 \<Rightarrow> bool jit" where
  "jit_var_is_zero_literal h s =
    (case jit_var s h of
       None \<Rightarrow> (Inr False, s)
     | Some v \<Rightarrow> (Inr (v_state v = Literal \<and> v_def v = DLiteral 0), s))"

definition jit_type_size :: "VarType \<Rightarrow> nat" where
  "jit_type_size t =
    (case t of Void \<Rightarrow> 0 | Bool \<Rightarrow> 1 | Int32 \<Rightarrow> 4 | UInt32 \<Rightarrow> 4 | Float32 \<Rightarrow> 4
     | Int64 \<Rightarrow> 8 | UInt64 \<Rightarrow> 8 | Float64 \<Rightarrow> 8)"

definition jit_var_literal :: "JitBackend \<Rightarrow> VarType \<Rightarrow> u64 \<Rightarrow> nat \<Rightarrow> u32 jit" where
  "jit_var_literal backend ty val sz =
    jit_var_new \<lparr>v_type = ty, v_backend = backend, v_size = sz, v_state = Literal,
                 v_def = DLiteral val\<rparr>"

definition jit_var_u32 :: "JitBackend \<Rightarrow> u32 \<Rightarrow> u32 jit" where
  "jit_var_u32 backend val = jit_var_literal backend UInt32 (ucast val) 1"

definition jit_var_bool :: "JitBackend \<Rightarrow> bool \<Rightarrow> u32 jit" where
  "jit_var_bool backend val = jit_var_literal backend Bool (if val then 1 else 0) 1"

definition jit_var_neq :: "u32 \<Rightarrow> u32 \<Rightarrow> u32 jit" where
  "jit_var_neq a0 a1 =
    jbind (jit_var_lookup a0) (\<lambda>v0. jbind (jit_var_lookup a1) (\<lambda>v1.
      jit_var_new \<lparr>v_type = Bool, v_backend = v_backend v0, v_size = max (v_size v0) (v_size v1),
                   v_state = Unevaluated, v_def = DNeq (v_def v0) (v_def v1)\<rparr>))"

definition jit_var_and :: "u32 \<Rightarrow> u32 \<Rightarrow> u32 jit" where
  "jit_var_and a0 a1 =
    jbind (jit_var_lookup a0) (\<lambda>v0. jbind (jit_var_lookup a1) (\<lambda>v1.
      jit_var_new \<lparr>v_type = v_type v0, v_backend = v_backend v0,
                   v_size = max (v_size v0) (v_size v1),
                   v_state = Unevaluated, v_def = DAnd (v_def v0) (v_def v1)\<rparr>))"

definition jit_var_gather :: "u32 \<Rightarrow> u32 \<Rightarrow> u32 \<Rightarrow> u32 jit" where
  "jit_var_gather src index msk =
    jbind (jit_var_lookup src) (\<lambda>vs. jbind (jit_var_lookup index) (\<lambda>vi.
    jbind (jit_var_lookup msk) (\<lambda>vm.
      jit_var_new \<lparr>v_type = v_type vs, v_backend = v_backend vs,
                   v_size = max (v_size vi) (v_size vm),
                   v_state = Unevaluated, v_def = DGather (v_def vs) (v_def vi) (v_def vm)\<rparr>)))"

definition jit_var_mem_map :: "JitBackend \<Rightarrow> VarType \<Rightarrow> nat \<Rightarrow> nat \<Rightarrow> u32 jit" where
  "jit_var_mem_map backend ty ptr sz =
    jit_var_new \<lparr>v_type = ty, v_backend = backend, v_size = sz, v_state = Evaluated,
                 v_def = DMemMap ptr\<rparr>"

definition jit_var_opaque :: "VarType \<Rightarrow> JitBackend \<Rightarrow> nat \<Rightarrow> VarState \<Rightarrow> u32 jit" where
  "jit_var_opaque ty backend sz state s =
    jit_var_new \<lparr>v_type = ty, v_backend = backend, v_size = sz, v_state = state,
                 v_def = DOpaque (length (vars s))\<rparr> s"

definition jit_var_call_input :: "u32 \<Rightarrow> u32 jit" where
  "jit_var_call_input h =
    jbind (jit_var_lookup h) (\<lambda>v. jit_var_opaque (v_type v) (v_backend v) (v_size v) Unevaluated)"

definition jit_var_call_mask :: "JitBackend \<Rightarrow> u32 jit" where
  "jit_var_call_mask backend = jit_var_opaque Bool backend 1 Unevaluated"

definition jit_var_mask_default :: "JitBackend \<Rightarrow> nat \<Rightarrow> u32 jit" where
  "jit_var_mask_default backend sz = jit_var_opaque Bool backend sz Unevaluated"

definition jit_var_read_literal :: "u32 \<Rightarrow> u64 jit" where
  "jit_var_read_literal h =
    jbind (jit_var_lookup h) (\<lambda>v.
      case v_def v of DLiteral x \<Rightarrow> ret x | _ \<Rightarrow> throw BackendError)"

definition jit_malloc :: "nat \<Rightarrow> nat jit" where
  "jit_malloc bytes s = (Inr (Suc (heap_blocks s)), s\<lparr>heap_blocks := Suc (heap_blocks s)\<rparr>)"

definition jit_aggregate :: "nat \<Rightarrow> AggregationEntry list \<Rightarrow> unit jit" where
  "jit_aggregate ptr agg s = (Inr (), s\<lparr>aggregates := aggregates s @ [(ptr, agg)]\<rparr>)"

text \<open>
  Scheduling and evaluation change no field of the model, and reference counts are not
  part of it: \<open>jit_var_schedule\<close>, \<open>jit_eval\<close>, \<open>jit_var_inc_ref\<close>,
  \<open>jit_var_dec_ref\<close>, \<open>ad_var_dec_ref\<close>, \<open>ad_var_check_implicit\<close> and the isolation
  boundary guard leave the state as it is and are left out of the functions below.
\<close>

definition jit_var_set_self :: "u32 \<Rightarrow> u32 \<Rightarrow> unit jit" where
  "jit_var_set_self val index s =
    (Inr (), s\<lparr>self_value := val, self_index := index, trace := trace s @ [SetSelf val index]\<rparr>)"

text \<open>
  Modelled from the spec: the AD engine. \<open>ad_var_new\<close> makes a new AD node for an IR
  handle; \<open>ad_var_gather\<close> and \<open>ad_var_scatter\<close> produce a new IR node and, when an
  operand is tracked, a new AD node.
\<close>

definition ad_node_new :: "u32 jit" where
  "ad_node_new s =
    (if Suc (ad_nodes s) < 2 ^ 32
     then (Inr (of_nat (Suc (ad_nodes s))), s\<lparr>ad_nodes := Suc (ad_nodes s)\<rparr>)
     else (Inl BackendError, s))"

definition ad_var_new :: "u32 \<Rightarrow> u64 jit" where
  "ad_var_new i0 = jbind ad_node_new (\<lambda>a. ret (combine a i0))"

definition ad_var_gather :: "u64 \<Rightarrow> u32 \<Rightarrow> u32 \<Rightarrow> bool \<Rightarrow> u64 jit" where
  "ad_var_gather source offset msk permute =
    jbind (jit_var_lookup (ir_part source)) (\<lambda>vs. jbind (jit_var_lookup offset) (\<lambda>vo.
    jbind (jit_var_lookup msk) (\<lambda>vm.
    jbind (jit_var_opaque (v_type vs) (v_backend vs) (v_size vo) Unevaluated) (\<lambda>r.
      if ad_part source \<noteq> 0 then ad_var_new r else ret (ucast r)))))"

definition ad_var_scatter :: "u64 \<Rightarrow> u64 \<Rightarrow> u32 \<Rightarrow> u32 \<Rightarrow> u64 jit" where
  "ad_var_scatter target val offset msk =
    jbind (jit_var_lookup (ir_part target)) (\<lambda>vt. jbind (jit_var_lookup (ir_part val)) (\<lambda>vv.
    jbind (jit_var_lookup offset) (\<lambda>vo. jbind (jit_var_lookup msk) (\<lambda>vm.
    jbind (jit_var_opaque (v_type vt) (v_backend vt) (v_size vt) Unevaluated) (\<lambda>r.
      if ad_part target \<noteq> 0 \<or> ad_part val \<noteq> 0 then ad_var_new r else ret (ucast r))))))"

text \<open>
  Modelled from the spec: the lane-wise meaning of the nodes the getter strategy builds.
  \<open>mem\<close> is the content of mapped memory, \<open>rho\<close> the lanes of the opaque nodes. A
  size-1 node has the same value in every lane. A masked gather reads element
  \<open>index[k]\<close> of its source in the lanes where the mask is set and yields zero in the
  others.
\<close>

fun eval :: "(nat \<Rightarrow> nat \<Rightarrow> u64) \<Rightarrow> (nat \<Rightarrow> nat \<Rightarrow> u64) \<Rightarrow> vdef \<Rightarrow> nat \<Rightarrow> u64" where
  "eval mem rho (DLiteral x) k = x"
| "eval mem rho (DNeq a b) k = (if eval mem rho a k \<noteq> eval mem rho b k then 1 else 0)"
| "eval mem rho (DAnd a b) k = (eval mem rho a k AND eval mem rho b k)"
| "eval mem rho (DGather src idx m) k =
    (if eval mem rho m k = 0 then 0 else eval mem rho src (unat (eval mem rho idx k)))"
| "eval mem rho (DMemMap p) k = mem p k"
| "eval mem rho (DOpaque n) k = rho n k"

section \<open>The scoped helpers of the dispatcher (extra/call.cpp)\<close>

text \<open>
  The user callback \<open>func(payload, ptr, args, rv)\<close>: it receives the instance pointer,
  the argument vector and the vector \<open>rv\<close> it is to fill, may change the JIT state and
  may throw. The payload is fixed during a dispatch and is not a parameter. \<open>invoke\<close> is
  a call of the callback by the dispatcher: it logs the call, and the log is the
  dispatcher's own (a callback cannot alter it).
\<close>

type_synonym ad_call_func = "nat \<Rightarrow> u64 list \<Rightarrow> u64 list \<Rightarrow> (u64 list) jit"

definition invoke :: "ad_call_func \<Rightarrow> nat \<Rightarrow> u64 list \<Rightarrow> u64 list \<Rightarrow> (u64 list) jit" where
  "invoke func ptr args rv s =
    (case func ptr args rv s of (r, s') \<Rightarrow> (r, s'\<lparr>trace := trace s @ [Invoke ptr args]\<rparr>))"

text \<open>
  \<open>scoped_set_mask\<close>: the constructor pushes the mask, the destructor pops it, on the
  normal path and on the exceptional one.
\<close>

definition scoped_set_mask :: "u32 \<Rightarrow> 'a jit \<Rightarrow> 'a jit" where
  "scoped_set_mask index body s =
    (case body (s\<lparr>mask_stack := index # mask_stack s\<rparr>) of
       (r, s') \<Rightarrow> (r, s'\<lparr>mask_stack := tl (mask_stack s')\<rparr>))"

text \<open>
  \<open>scoped_record\<close>: the constructor begins a recording and opens a new scope; the
  destructor ends the recording with the flag \<open>cleanup\<close>, which is true unless the body
  called \<open>disarm\<close>. The body returns its value and that flag; when it throws, the flag
  is still true. A recording that ends with \<open>cleanup\<close> set is discarded.
\<close>

record scoped_rec =
  rec_checkpoint :: nat
  rec_scope :: nat

definition jit_record_end :: "nat \<Rightarrow> bool \<Rightarrow> jit_state \<Rightarrow> jit_state" where
  "jit_record_end checkpoint cleanup s =
    s\<lparr>record_stack := tl (record_stack s),
      discarded := (if cleanup then discarded s @ [checkpoint] else discarded s)\<rparr>"

definition checkpoint_and_rewind :: "scoped_rec \<Rightarrow> u32 jit" where
  "checkpoint_and_rewind rec s = (Inr (of_nat (length (vars s))), s\<lparr>scope := rec_scope rec\<rparr>)"

definition scoped_record :: "(scoped_rec \<Rightarrow> ('a \<times> bool) jit) \<Rightarrow> 'a jit" where
  "scoped_record body s =
    (let checkpoint = length (vars s);
         s1 = s\<lparr>record_stack := checkpoint # record_stack s\<rparr>;
         s2 = s1\<lparr>scope_count := Suc (scope_count s1), scope := Suc (scope_count s1)\<rparr>
     in case body \<lparr>rec_checkpoint = checkpoint, rec_scope = scope s2\<rparr> s2 of
          (Inl e, s3) \<Rightarrow> (Inl e, jit_record_end checkpoint True s3)
        | (Inr (x, cleanup), s3) \<Rightarrow> (Inr x, jit_record_end checkpoint cleanup s3))"

text \<open>
  \<open>scoped_set_self\<close>: the constructor saves the current pair and sets the new one, the
  destructor sets the saved pair again.
\<close>

definition scoped_set_self :: "u32 \<Rightarrow> u32 \<Rightarrow> 'a jit \<Rightarrow> 'a jit" where
  "scoped_set_self val index body s =
    (let m_self_value = self_value s; m_self_index = self_index s in
     case jbind (jit_var_set_self val index) (\<lambda>_. body) s of
       (r, s') \<Rightarrow> (r, snd (jit_var_set_self m_self_value m_self_index s')))"

section \<open>ad\_call\_check\_rv\<close>

text \<open>
  The loop of the first branch (the output array is still empty): every returned handle
  must be non-zero, and the output gets a zero literal of its type and of size \<open>sz\<close>.
\<close>

fun check_rv_first :: "JitBackend \<Rightarrow> nat \<Rightarrow> u64 list \<Rightarrow> (u64 list) jit" where
  "check_rv_first backend sz [] = ret []"
| "check_rv_first backend sz (x # xs) =
    (if x = 0 then throw EmptyReturn
     else jbind (jit_var_type (ir_part x)) (\<lambda>ty.
          jbind (jit_var_literal backend ty 0 sz) (\<lambda>l.
          jbind (check_rv_first backend sz xs) (\<lambda>ls. ret (ucast l # ls)))))"

text \<open>The loop of the second branch, over the pairs \<open>(rv[i], rv2[i])\<close>.\<close>

fun check_rv_rest :: "JitBackend \<Rightarrow> (u64 \<times> u64) list \<Rightarrow> unit jit" where
  "check_rv_rest backend [] = ret ()"
| "check_rv_rest backend ((i1, i2) # rest) =
    (if i2 = 0 then throw EmptyReturn
     else jbind (jit_set_backend (ir_part i1)) (\<lambda>v1.
          jbind (jit_set_backend (ir_part i2)) (\<lambda>v2.
            if v_backend v2 \<noteq> backend then throw ReturnBackendMismatch
            else if v_type v1 \<noteq> v_type v2 then throw ReturnTypeMismatch
            else check_rv_rest backend rest)))"

text \<open>\<open>ad_call_check_rv\<close>; the result is the output array \<open>rv\<close> as it is afterwards.\<close>

definition ad_call_check_rv ::
  "JitBackend \<Rightarrow> nat \<Rightarrow> nat \<Rightarrow> u64 list \<Rightarrow> u64 list \<Rightarrow> (u64 list) jit" where
  "ad_call_check_rv backend sz callable_index rv rv2 =
    (if length rv \<noteq> length rv2 then
       (if rv \<noteq> [] then throw ReturnArityMismatch else check_rv_first backend sz rv2)
     else jbind (check_rv_rest backend (zip rv rv2)) (\<lambda>_. ret rv))"

text \<open>
  The instance pointer of callable \<open>i\<close> in the getter and the recording strategy: with a
  domain the registry entry of id \<open>i + 1\<close> (\<open>None\<close> when it is \<open>nullptr\<close> and the
  callable is skipped), without one the index itself.
\<close>

definition callable_ptr :: "env \<Rightarrow> string option \<Rightarrow> nat \<Rightarrow> nat option" where
  "callable_ptr e domain i =
    (case domain of
       Some d \<Rightarrow> (let p = env_registry_ptr e (of_nat i + 1) in if p = 0 then None else Some p)
     | None \<Rightarrow> Some i)"

section \<open>Strategy 1: ad\_call\_getter\<close>

text \<open>
  The inner loop that moves the return values of one callable to \<open>rv3\<close>, starting at
  position \<open>j\<close>.
\<close>

fun getter_move :: "u64 list \<Rightarrow> nat \<Rightarrow> bool list \<Rightarrow> u32 list \<Rightarrow> (bool list \<times> u32 list) jit" where
  "getter_move [] j rv_ad rv3 = ret (rv_ad, rv3)"
| "getter_move (index # rest) j rv_ad rv3 =
    jbind (vec_get rv_ad j) (\<lambda>b.
    jbind (vec_set rv_ad j (b \<or> ad_part index \<noteq> 0)) (\<lambda>rv_ad'.
      if index = 0 then throw EmptyReturn
      else jbind (jit_var_size (ir_part index)) (\<lambda>n.
             if n \<noteq> 1 then throw ReturnNotScalar
             else getter_move rest (Suc j) rv_ad' (rv3 @ [ir_part index]))))"

text \<open>
  The first loop of \<open>ad_call_getter\<close> over the callables, on the locals
  \<open>(rv2, rv, rv_ad, rv3)\<close>. The callback is called with the empty vector \<open>args2\<close>,
  inside a recording that is never disarmed.
\<close>

fun getter_loop ::
  "env \<Rightarrow> JitBackend \<Rightarrow> string option \<Rightarrow> nat \<Rightarrow> ad_call_func \<Rightarrow> nat list
    \<Rightarrow> u64 list \<times> u64 list \<times> bool list \<times> u32 list
    \<Rightarrow> (u64 list \<times> u64 list \<times> bool list \<times> u32 list) jit" where
  "getter_loop e backend domain sz func [] st = ret st"
| "getter_loop e backend domain sz func (i # rest) (rv2, rv, rv_ad, rv3) =
    (case callable_ptr e domain i of
       None \<Rightarrow> getter_loop e backend domain sz func rest ([], rv, rv_ad, rv3)
     | Some ptr \<Rightarrow>
         jbind (scoped_record (\<lambda>rec. jbind (invoke func ptr [] []) (\<lambda>r. ret (r, True)))) (\<lambda>rv2'.
         jbind (ad_call_check_rv backend sz i rv rv2') (\<lambda>rv'.
         jbind (getter_move rv2' 0
                  (if rv_ad = [] then replicate (length rv2') False else rv_ad) rv3) (\<lambda>(rv_ad', rv3').
           getter_loop e backend domain sz func rest (rv2', rv', rv_ad', rv3')))))"

text \<open>
  The test \<open>is_literal\<close> of output slot \<open>i\<close> (\<open>n\<close> is \<open>rv2.size()\<close>): every callable
  returned the handle of the first one. The loop reads \<open>rv3\<close> for every \<open>j\<close>.
\<close>

fun getter_is_literal :: "u32 list \<Rightarrow> nat \<Rightarrow> nat \<Rightarrow> nat list \<Rightarrow> bool jit" where
  "getter_is_literal rv3 i n [] = ret True"
| "getter_is_literal rv3 i n (j # js) =
    jbind (vec_get rv3 i) (\<lambda>a.
    jbind (vec_get rv3 (i + j * n)) (\<lambda>b.
    jbind (getter_is_literal rv3 i n js) (\<lambda>r. ret (a = b \<and> r))))"

text \<open>The aggregation entries of output slot \<open>i\<close>, one per callable.\<close>

fun getter_entries :: "u32 list \<Rightarrow> nat \<Rightarrow> nat \<Rightarrow> nat \<Rightarrow> nat list \<Rightarrow> (AggregationEntry list) jit" where
  "getter_entries rv3 i n tsize [] = ret []"
| "getter_entries rv3 i n tsize (j # js) =
    jbind (vec_get rv3 (i + j * n)) (\<lambda>rv3_i.
    jbind (jit_var_state rv3_i) (\<lambda>state.
    jbind (case state of
             Literal \<Rightarrow>
               jbind (jit_var_read_literal rv3_i) (\<lambda>x.
                 ret \<lparr>agg_offset = (j + 1) * tsize, agg_size = int tsize, agg_src = SrcLiteral x\<rparr>)
           | Unevaluated \<Rightarrow>
               ret \<lparr>agg_offset = (j + 1) * tsize, agg_size = - int tsize, agg_src = SrcData rv3_i\<rparr>
           | Evaluated \<Rightarrow>
               ret \<lparr>agg_offset = (j + 1) * tsize, agg_size = - int tsize, agg_src = SrcData rv3_i\<rparr>
           | _ \<Rightarrow> throw InvalidVarState) (\<lambda>entry.
    jbind (getter_entries rv3 i n tsize js) (\<lambda>es. ret (entry # es)))))"

text \<open>
  The new value of \<open>rv[i]\<close> in the second loop: the shared handle when \<open>is_literal\<close>
  holds, otherwise a gather from the aggregated buffer with \<open>index\<close> under \<open>msk\<close>.
\<close>

definition getter_slot ::
  "JitBackend \<Rightarrow> u32 \<Rightarrow> u32 \<Rightarrow> nat \<Rightarrow> u64 list \<Rightarrow> u32 list \<Rightarrow> nat \<Rightarrow> u64 jit" where
  "getter_slot backend index msk callable_count rv2 rv3 i =
    jbind (getter_is_literal rv3 i (length rv2) [0..<callable_count]) (\<lambda>is_literal.
      if is_literal then jbind (vec_get rv3 i) (\<lambda>h. ret (ucast h))
      else
        jbind (vec_get rv2 i) (\<lambda>h2.
        jbind (jit_var_type (ir_part h2)) (\<lambda>ty.
        jbind (jit_malloc (jit_type_size ty * (callable_count + 1))) (\<lambda>ptr.
        jbind (jit_var_mem_map backend ty ptr (callable_count + 1)) (\<lambda>buf.
        jbind (jit_malloc (16 * callable_count)) (\<lambda>agg_ptr.
        jbind (getter_entries rv3 i (length rv2) (jit_type_size ty) [0..<callable_count]) (\<lambda>agg.
        jbind (jit_aggregate ptr agg) (\<lambda>_.
        jbind (jit_var_gather buf index msk) (\<lambda>r. ret (ucast r))))))))))"

fun getter_assemble ::
  "JitBackend \<Rightarrow> u32 \<Rightarrow> u32 \<Rightarrow> nat \<Rightarrow> u64 list \<Rightarrow> u32 list \<Rightarrow> nat list \<Rightarrow> u64 list
    \<Rightarrow> (u64 list) jit" where
  "getter_assemble backend index msk callable_count rv2 rv3 [] rv = ret rv"
| "getter_assemble backend index msk callable_count rv2 rv3 (i # rest) rv =
    jbind (vec_set rv i 0) (\<lambda>rv0.
    jbind (getter_slot backend index msk callable_count rv2 rv3 i) (\<lambda>h.
    jbind (vec_set rv0 i h) (\<lambda>rv1.
      getter_assemble backend index msk callable_count rv2 rv3 rest rv1)))"

text \<open>
  \<open>ad_call_getter\<close>. The parameter \<open>args\<close> is unused, as in the source; the results are
  the vectors \<open>rv\<close> and \<open>rv_ad\<close>. Names only label log lines and IR nodes and are left
  out of all three strategies.
\<close>

definition ad_call_getter ::
  "env \<Rightarrow> JitBackend \<Rightarrow> string option \<Rightarrow> nat \<Rightarrow> u32 \<Rightarrow> u32 \<Rightarrow> nat \<Rightarrow> u64 list \<Rightarrow> u64 list
    \<Rightarrow> bool list \<Rightarrow> ad_call_func \<Rightarrow> (u64 list \<times> bool list) jit" where
  "ad_call_getter e backend domain sz index mask0 callable_count args rv rv_ad func =
    jbind (jit_var_u32 backend 0) (\<lambda>null_instance.
    jbind (jit_var_neq index null_instance) (\<lambda>is_non_null.
    jbind (jit_var_and mask0 is_non_null) (\<lambda>msk.
    jbind (getter_loop e backend domain sz func [0..<callable_count] ([], rv, rv_ad, []))
      (\<lambda>(rv2, rv1, rv_ad1, rv3).
    jbind (getter_assemble backend index msk callable_count rv2 rv3 [0..<length rv2] rv1) (\<lambda>rv'.
      ret (rv', rv_ad1))))))"

section \<open>Strategy 2: ad\_call\_record\<close>

text \<open>
  The loop that wraps the arguments as call inputs: \<open>args3\<close> holds the wrapped IR
  handles, \<open>args2\<close> what the callables receive (a new AD variable for a tracked
  argument).
\<close>

fun record_wrap_args :: "u64 list \<Rightarrow> (u32 list \<times> u64 list) jit" where
  "record_wrap_args [] = ret ([], [])"
| "record_wrap_args (a # rest) =
    jbind (jit_var_call_input (ir_part a)) (\<lambda>wrapped.
    jbind (if ad_part a \<noteq> 0 then ad_var_new wrapped else ret (ucast wrapped)) (\<lambda>a2.
    jbind (record_wrap_args rest) (\<lambda>(args3, args2). ret (wrapped # args3, a2 # args2))))"

fun record_move :: "u64 list \<Rightarrow> nat \<Rightarrow> bool list \<Rightarrow> u32 list \<Rightarrow> (bool list \<times> u32 list) jit" where
  "record_move [] j rv_ad rv3 = ret (rv_ad, rv3)"
| "record_move (index # rest) j rv_ad rv3 =
    jbind (vec_get rv_ad j) (\<lambda>b.
    jbind (vec_set rv_ad j (b \<or> ad_part index \<noteq> 0)) (\<lambda>rv_ad'.
      record_move rest (Suc j) rv_ad' (rv3 @ [ir_part index])))"

text \<open>
  The loop over the callables, on the locals \<open>(checkpoints, inst_id,
  callable_count_final, rv, rv_ad, rv3)\<close>. The guard \<open>set_self\<close> lives to the end of the
  iteration.
\<close>

fun record_loop ::
  "env \<Rightarrow> JitBackend \<Rightarrow> string option \<Rightarrow> nat \<Rightarrow> ad_call_func \<Rightarrow> scoped_rec \<Rightarrow> u64 list \<Rightarrow> nat list
    \<Rightarrow> u32 list \<times> u32 list \<times> nat \<times> u64 list \<times> bool list \<times> u32 list
    \<Rightarrow> (u32 list \<times> u32 list \<times> nat \<times> u64 list \<times> bool list \<times> u32 list) jit" where
  "record_loop e backend domain sz func rec args2 [] st = ret st"
| "record_loop e backend domain sz func rec args2 (i # rest)
      (checkpoints, inst_id, callable_count_final, rv, rv_ad, rv3) =
    jbind (checkpoint_and_rewind rec) (\<lambda>c.
    jbind (vec_set checkpoints i c) (\<lambda>checkpoints'.
      case callable_ptr e domain i of
        None \<Rightarrow>
          record_loop e backend domain sz func rec args2 rest
            (checkpoints', inst_id, callable_count_final, rv, rv_ad, rv3)
      | Some ptr \<Rightarrow>
          jbind (scoped_set_self (of_nat (i + 1)) 0
                  (jbind (invoke func ptr args2 []) (\<lambda>rv2.
                   jbind (vec_set inst_id i (of_nat (i + 1))) (\<lambda>inst_id'.
                   jbind (ad_call_check_rv backend sz i rv rv2) (\<lambda>rv'.
                   jbind (record_move rv2 0
                            (if rv_ad = [] then replicate (length rv2) False else rv_ad) rv3)
                     (\<lambda>(rv_ad', rv3').
                       ret (checkpoints', inst_id', Suc callable_count_final, rv', rv_ad', rv3')))))))
            (\<lambda>st. record_loop e backend domain sz func rec args2 rest st)))"

text \<open>
  Modelled from the spec: \<open>jit_var_call\<close> emits the indirect call and returns one fresh
  output handle per return slot, of the type the slot has and of the size of the call.
\<close>

fun jit_var_call_outputs :: "JitBackend \<Rightarrow> nat \<Rightarrow> u64 list \<Rightarrow> (u32 list) jit" where
  "jit_var_call_outputs backend sz [] = ret []"
| "jit_var_call_outputs backend sz (h # hs) =
    jbind (jit_var_type (ir_part h)) (\<lambda>ty.
    jbind (jit_var_opaque ty backend sz Unevaluated) (\<lambda>out.
    jbind (jit_var_call_outputs backend sz hs) (\<lambda>outs. ret (out # outs))))"

definition jit_var_call ::
  "JitBackend \<Rightarrow> nat \<Rightarrow> u32 \<Rightarrow> u32 \<Rightarrow> nat \<Rightarrow> u32 list \<Rightarrow> u32 list \<Rightarrow> u32 list \<Rightarrow> u32 list
    \<Rightarrow> u64 list \<Rightarrow> (u32 list) jit" where
  "jit_var_call backend sz index msk n_inst inst_id args3 rv3 checkpoints rv =
    jbind (jit_var_lookup index) (\<lambda>_.
    jbind (jit_var_lookup msk) (\<lambda>_. jit_var_call_outputs backend sz rv))"

definition ad_call_record ::
  "env \<Rightarrow> JitBackend \<Rightarrow> string option \<Rightarrow> nat \<Rightarrow> u32 \<Rightarrow> u32 \<Rightarrow> nat \<Rightarrow> u64 list \<Rightarrow> u64 list
    \<Rightarrow> bool list \<Rightarrow> ad_call_func \<Rightarrow> (u64 list \<times> bool list) jit" where
  "ad_call_record e backend domain sz index mask0 callable_count args rv rv_ad func =
    jbind (if mask0 \<noteq> 0 then ret mask0 else jit_var_bool backend True) (\<lambda>msk.
    scoped_record (\<lambda>rec.
      jbind (record_wrap_args args) (\<lambda>(args3, args2).
      jbind (jit_var_call_mask backend) (\<lambda>call_mask.
      jbind (scoped_set_mask call_mask
               (jbind (record_loop e backend domain sz func rec args2 [0..<callable_count]
                         (replicate (callable_count + 1) 0, replicate callable_count 0, 0,
                          rv, rv_ad, []))
                  (\<lambda>(checkpoints, inst_id, callable_count_final, rv1, rv_ad1, rv3).
                jbind (checkpoint_and_rewind rec) (\<lambda>c.
                jbind (vec_set checkpoints callable_count c) (\<lambda>checkpoints'.
                  ret (checkpoints', inst_id, callable_count_final, rv1, rv_ad1, rv3))))))
        (\<lambda>(checkpoints, inst_id, callable_count_final, rv1, rv_ad1, rv3).
      jbind (jit_var_call backend sz index msk callable_count_final inst_id args3 rv3
               checkpoints rv1) (\<lambda>rv4.
        ret ((map ucast rv4, rv_ad1), False)))))))"

section \<open>Strategy 3: ad\_call\_reduce\<close>

record CallBucket =
  bucket_id :: u32
  bucket_index :: u32

text \<open>
  Modelled from the spec: \<open>jit_var_call_reduce\<close> returns the buckets, each with its id
  and a fresh permutation array of as many lanes as the bucket has.
\<close>

fun jit_var_call_reduce_buckets :: "JitBackend \<Rightarrow> (u32 \<times> nat) list \<Rightarrow> (CallBucket list) jit" where
  "jit_var_call_reduce_buckets backend [] = ret []"
| "jit_var_call_reduce_buckets backend ((b, n) # rest) =
    jbind (jit_var_opaque UInt32 backend n Evaluated) (\<lambda>perm.
    jbind (jit_var_call_reduce_buckets backend rest) (\<lambda>bs.
      ret (\<lparr>bucket_id = b, bucket_index = perm\<rparr> # bs)))"

definition jit_var_call_reduce :: "env \<Rightarrow> JitBackend \<Rightarrow> u32 \<Rightarrow> (CallBucket list) jit" where
  "jit_var_call_reduce e backend index =
    jbind (jit_var_lookup index) (\<lambda>_. jit_var_call_reduce_buckets backend (env_call_buckets e))"

fun reduce_gather_args :: "u64 list \<Rightarrow> u32 \<Rightarrow> u32 \<Rightarrow> (u64 list) jit" where
  "reduce_gather_args [] index2 memop_mask = ret []"
| "reduce_gather_args (a # rest) index2 memop_mask =
    jbind (ad_var_gather a index2 memop_mask True) (\<lambda>g.
    jbind (reduce_gather_args rest index2 memop_mask) (\<lambda>gs. ret (g # gs)))"

text \<open>
  The loop that merges \<open>rv2\<close> into \<open>rv\<close>: \<open>rv[j]\<close> becomes the scatter of \<open>rv2[j]\<close>
  into it, for every \<open>j\<close> below \<open>rv2.size()\<close>.
\<close>

fun reduce_merge :: "u64 list \<Rightarrow> u64 list \<Rightarrow> u32 \<Rightarrow> u32 \<Rightarrow> (u64 list) jit" where
  "reduce_merge rv [] index2 memop_mask = ret rv"
| "reduce_merge [] (v # vs) index2 memop_mask = throw OutOfBounds"
| "reduce_merge (r # rs) (v # vs) index2 memop_mask =
    jbind (ad_var_scatter r v index2 memop_mask) (\<lambda>x.
    jbind (reduce_merge rs vs index2 memop_mask) (\<lambda>xs. ret (x # xs)))"

text \<open>
  The loop over the buckets, on the locals \<open>(rv, last_size)\<close>; \<open>i\<close> is the position of
  the bucket in the array. \<open>args2\<close> is empty at the start of every iteration that gets
  past the \<open>continue\<close>.
\<close>

fun reduce_loop ::
  "env \<Rightarrow> JitBackend \<Rightarrow> string option \<Rightarrow> nat \<Rightarrow> ad_call_func \<Rightarrow> u64 list \<Rightarrow> u32 \<Rightarrow> u32
    \<Rightarrow> (nat \<times> CallBucket) list \<Rightarrow> u64 list \<times> nat \<Rightarrow> (u64 list \<times> nat) jit" where
  "reduce_loop e backend domain sz func args index memop_mask [] st = ret st"
| "reduce_loop e backend domain sz func args index memop_mask ((i, b) # rest) (rv, last_size) =
    (if bucket_id b = 0 then
       reduce_loop e backend domain sz func args index memop_mask rest (rv, last_size)
     else
       (let callable_index = bucket_id b - 1; index2 = bucket_index b in
        jbind (jit_var_size index2) (\<lambda>wavefront_size.
        jbind (jit_var_mask_default backend wavefront_size) (\<lambda>default_mask.
        jbind (scoped_set_mask default_mask
                 (jbind (reduce_gather_args args index2 memop_mask) (\<lambda>args2.
                  jbind (case domain of
                           Some d \<Rightarrow>
                             (let p = env_registry_ptr e (bucket_id b) in
                              if p = 0 then throw RegistryMiss else ret p)
                         | None \<Rightarrow> ret (unat callable_index)) (\<lambda>ptr.
                  jbind (ad_var_gather (ucast index) index2 memop_mask False) (\<lambda>instance_id.
                    scoped_set_self (of_nat (i + 1)) (ir_part instance_id)
                      (jbind (invoke func ptr args2 []) (\<lambda>rv2.
                       jbind (ad_call_check_rv backend sz i rv rv2) (\<lambda>rv'.
                         reduce_merge rv' rv2 index2 memop_mask))))))))
          (\<lambda>rv''.
            reduce_loop e backend domain sz func args index memop_mask rest
              (rv'', wavefront_size))))))"

definition ad_call_reduce ::
  "env \<Rightarrow> JitBackend \<Rightarrow> string option \<Rightarrow> nat \<Rightarrow> u32 \<Rightarrow> u32 \<Rightarrow> nat \<Rightarrow> u64 list \<Rightarrow> u64 list
    \<Rightarrow> ad_call_func \<Rightarrow> (u64 list) jit" where
  "ad_call_reduce e backend domain sz index0 mask0 callable_count args rv func =
    jbind (if mask0 \<noteq> 0 then jit_var_and index0 mask0 else ret index0) (\<lambda>index.
    jbind (jit_var_call_reduce e backend index) (\<lambda>buckets.
    jbind (jit_var_bool backend True) (\<lambda>memop_mask.
    jbind (reduce_loop e backend domain sz func args index memop_mask (enumerate 0 buckets)
             (rv, 0)) (\<lambda>(rv', last_size). ret rv'))))"

section \<open>CallOp and the dispatcher ad\_call\<close>

text \<open>
  The fields of \<open>CallOp\<close> and of its base class that the dispatcher and the AD passes
  use. \<open>m_cleanup\<close> tells whether the cleanup function pointer is set (not
  \<open>nullptr\<close>). The buffers \<open>m_args2\<close>, \<open>m_rv2\<close> and \<open>m_temp\<close> are emptied before
  every use and are locals of the callbacks here.
\<close>

record CallOp =
  m_backend :: JitBackend
  m_domain :: "string option"
  m_index :: u32
  m_mask :: u32
  m_callable_count :: nat
  m_args :: "u32 list"
  m_rv :: "u64 list"
  m_input_offsets :: "u32 list"
  m_output_offsets :: "u32 list"
  m_input_indices :: "u32 list"
  m_output_indices :: "u32 list"
  m_func :: ad_call_func
  m_cleanup :: bool

text \<open>
  What happens to the payload, in order: a \<open>CallOp\<close> that holds it is constructed,
  \<open>cleanup(payload)\<close> is called.
\<close>

datatype payload_event = CallOpCreated | CleanupCalled

definition CallOp_new ::
  "JitBackend \<Rightarrow> string option \<Rightarrow> u32 \<Rightarrow> u32 \<Rightarrow> nat \<Rightarrow> u64 list \<Rightarrow> ad_call_func \<Rightarrow> bool \<Rightarrow> CallOp" where
  "CallOp_new backend domain index msk callable_count args func cleanup =
    \<lparr>m_backend = backend, m_domain = domain, m_index = index, m_mask = msk,
     m_callable_count = callable_count, m_args = map ir_part args, m_rv = [],
     m_input_offsets = [], m_output_offsets = [], m_input_indices = [], m_output_indices = [],
     m_func = func, m_cleanup = cleanup\<rparr>"

text \<open>The destructor \<open>~CallOp\<close>: it calls the cleanup function when one is set.\<close>

definition CallOp_destroy :: "CallOp \<Rightarrow> payload_event list" where
  "CallOp_destroy op = (if m_cleanup op then [CleanupCalled] else [])"

definition disable_deleter :: "CallOp \<Rightarrow> CallOp" where
  "disable_deleter op = op\<lparr>m_cleanup := False\<rparr>"

text \<open>
  Modelled from the spec: \<open>add_index\<close> of the base class registers an AD node as input or
  output of the operation and tells whether it did; node 0 (not tracked) is not
  registered.
\<close>

definition add_index :: "u32 \<Rightarrow> bool \<Rightarrow> CallOp \<Rightarrow> bool \<times> CallOp" where
  "add_index ad_index is_input op =
    (if ad_index = 0 then (False, op)
     else if is_input then (True, op\<lparr>m_input_indices := m_input_indices op @ [ad_index]\<rparr>)
     else (True, op\<lparr>m_output_indices := m_output_indices op @ [ad_index]\<rparr>))"

definition add_input :: "nat \<Rightarrow> u64 \<Rightarrow> CallOp \<Rightarrow> CallOp" where
  "add_input i index op =
    (case add_index (ad_part index) True op of
       (True, op') \<Rightarrow> op'\<lparr>m_input_offsets := m_input_offsets op' @ [of_nat i]\<rparr>
     | (False, op') \<Rightarrow> op')"

definition add_output :: "nat \<Rightarrow> u64 \<Rightarrow> CallOp \<Rightarrow> CallOp" where
  "add_output i index op =
    (case add_index (ad_part index) False op of
       (True, op') \<Rightarrow> op'\<lparr>m_output_offsets := m_output_offsets op' @ [of_nat i],
                          m_rv := m_rv op' @ [push_bit 32 (drop_bit 32 index)]\<rparr>
     | (False, op') \<Rightarrow> op')"

fun callop_inputs :: "nat \<Rightarrow> u64 list \<Rightarrow> CallOp \<Rightarrow> CallOp" where
  "callop_inputs i [] op = op"
| "callop_inputs i (a # rest) op = callop_inputs (Suc i) rest (add_input i a op)"

fun callop_implicit :: "u32 list \<Rightarrow> CallOp \<Rightarrow> CallOp" where
  "callop_implicit [] op = op"
| "callop_implicit (index # rest) op = callop_implicit rest (snd (add_index index True op))"

text \<open>
  The loop that promotes every differentiable output to a new AD variable and registers
  it as an output of the operation.
\<close>

fun callop_outputs :: "bool list \<Rightarrow> nat list \<Rightarrow> u64 list \<times> CallOp \<Rightarrow> (u64 list \<times> CallOp) jit" where
  "callop_outputs rv_ad [] st = ret st"
| "callop_outputs rv_ad (i # rest) (rv, op) =
    jbind (vec_get rv_ad i) (\<lambda>b.
      if \<not> b then callop_outputs rv_ad rest (rv, op)
      else
        jbind (vec_get rv i) (\<lambda>h.
        jbind (ad_var_new (ir_part h)) (\<lambda>index.
        jbind (vec_set rv i index) (\<lambda>rv'.
          callop_outputs rv_ad rest (rv', add_output i index op)))))"

definition ad_custom_op :: "env \<Rightarrow> CallOp \<Rightarrow> bool jit" where
  "ad_custom_op e op = (case env_custom_op e of Inl err \<Rightarrow> throw err | Inr b \<Rightarrow> ret b)"

text \<open>
  The statements of \<open>ad_call\<close> between the construction of the \<open>CallOp\<close> and the test
  of \<open>ad_custom_op\<close>.
\<close>

definition ad_call_attach ::
  "env \<Rightarrow> u64 list \<Rightarrow> u64 list \<Rightarrow> bool list \<Rightarrow> u32 list \<Rightarrow> CallOp \<Rightarrow> (bool \<times> u64 list \<times> CallOp) jit" where
  "ad_call_attach e args rv rv_ad implicit_in op =
    jbind (callop_outputs rv_ad [0..<length rv]
             (rv, callop_implicit implicit_in (callop_inputs 0 args op))) (\<lambda>(rv1, op1).
    jbind (ad_custom_op e op1) (\<lambda>attached. ret (attached, rv1, op1)))"

text \<open>The loop that detaches the AD part of the outputs again.\<close>

definition detach :: "u64 \<Rightarrow> u64" where
  "detach index = (let index_d = drop_bit 32 (push_bit 32 index) in
                   if index = index_d then index else index_d)"

text \<open>
  The size unification over the arguments, which also collects \<open>needs_ad\<close>.
\<close>

fun unify_sizes :: "nat \<Rightarrow> bool \<Rightarrow> u64 list \<Rightarrow> (nat \<times> bool) jit" where
  "unify_sizes sz needs_ad [] = ret (sz, needs_ad)"
| "unify_sizes sz needs_ad (arg_i # rest) =
    jbind (jit_var_size (ir_part arg_i)) (\<lambda>size_2.
      if sz = 1 then unify_sizes size_2 (needs_ad \<or> ad_part arg_i \<noteq> 0) rest
      else if sz \<noteq> size_2 \<and> size_2 \<noteq> 1 then throw ShapeMismatch
      else unify_sizes sz (needs_ad \<or> ad_part arg_i \<noteq> 0) rest)"

text \<open>
  The loop of the degenerate case: every non-zero entry of \<open>rv\<close> is replaced by a zero
  literal of its type and of size \<open>sz\<close>; a zero entry is left as it is.
\<close>

fun zero_literals :: "JitBackend \<Rightarrow> nat \<Rightarrow> u64 list \<Rightarrow> (u64 list) jit" where
  "zero_literals backend sz [] = ret []"
| "zero_literals backend sz (i # rest) =
    jbind (if i \<noteq> 0
           then jbind (jit_var_type (ir_part i)) (\<lambda>ty.
                jbind (jit_var_literal backend ty 0 sz) (\<lambda>l. ret (ucast l)))
           else ret i) (\<lambda>i'.
    jbind (zero_literals backend sz rest) (\<lambda>r. ret (i' # r)))"

definition jit_flag_vcall_record :: "bool jit" where
  "jit_flag_vcall_record s = (Inr (flag_vcall_record s), s)"

definition jit_flag_symbolic :: "bool jit" where
  "jit_flag_symbolic s = (Inr (flag_symbolic s), s)"

text \<open>
  The first part of the \<open>try\<close> block of \<open>ad_call\<close>, up to the end of the strategy: either
  the degenerate case returned (\<open>Degenerate rv\<close>), or a strategy ran and left \<open>rv\<close>,
  \<open>rv_ad\<close>, \<open>implicit_in\<close>, \<open>needs_ad\<close> (from the arguments) and \<open>ad\<close>. It is given
  in two steps: \<open>ad_call_select\<close> is the code from the test of the degenerate case on,
  \<open>ad_call_strategy\<close> the checks and the size unification before it.
\<close>

datatype strategy_result =
    Degenerate "u64 list"
  | Dispatched "u64 list" "bool list" "u32 list" bool bool

definition ad_call_select ::
  "env \<Rightarrow> JitBackend \<Rightarrow> string option \<Rightarrow> nat \<Rightarrow> nat \<Rightarrow> bool \<Rightarrow> bool \<Rightarrow> bool \<Rightarrow> u32 \<Rightarrow> u32
    \<Rightarrow> u64 list \<Rightarrow> u64 list \<Rightarrow> ad_call_func \<Rightarrow> bool \<Rightarrow> strategy_result jit" where
  "ad_call_select e backend domain callable_count sz needs_ad zero_mask is_getter index msk
      args rv func ad =
    (if index = 0 \<or> sz = 0 \<or> zero_mask \<or> callable_count = 0 then
       jbind (jit_var_bool backend False) (\<lambda>false_mask.
         scoped_set_mask false_mask
           (jbind (invoke func 0 args rv) (\<lambda>rv1.
            jbind (zero_literals backend sz rv1) (\<lambda>rv2. ret (Degenerate rv2)))))
     else if is_getter then
       jbind (ad_call_getter e backend domain sz index msk callable_count args rv [] func)
         (\<lambda>(rv1, rv_ad). ret (Dispatched rv1 rv_ad (env_implicit_deps e) needs_ad ad))
     else
       jbind jit_flag_vcall_record (\<lambda>vcall_record.
         if vcall_record then
           jbind (ad_call_record e backend domain sz index msk callable_count args rv [] func)
             (\<lambda>(rv1, rv_ad). ret (Dispatched rv1 rv_ad (env_implicit_deps e) needs_ad ad))
         else
           jbind jit_flag_symbolic (\<lambda>symbolic.
             if symbolic then throw SymbolicModeRequired
             else
               jbind (ad_call_reduce e backend domain sz index msk callable_count args rv func)
                 (\<lambda>rv1. ret (Dispatched rv1 [] [] needs_ad False)))))"

definition ad_call_strategy ::
  "env \<Rightarrow> JitBackend \<Rightarrow> string option \<Rightarrow> nat \<Rightarrow> bool \<Rightarrow> u32 \<Rightarrow> u32 \<Rightarrow> u64 list \<Rightarrow> u64 list
    \<Rightarrow> ad_call_func \<Rightarrow> bool \<Rightarrow> strategy_result jit" where
  "ad_call_strategy e backend domain callable_count0 is_getter index msk args rv func ad =
    (if (callable_count0 \<noteq> 0) = (domain \<noteq> None) then throw ModeConflict
     else
       jbind (jit_var_size index) (\<lambda>sz0.
       jbind (if msk \<noteq> 0
              then jbind (jit_var_size msk) (\<lambda>size_2.
                     if sz0 = 1 then ret size_2
                     else if sz0 \<noteq> size_2 \<and> size_2 \<noteq> 1 then throw ShapeMismatch
                     else ret sz0)
              else ret sz0) (\<lambda>sz1.
       jbind (unify_sizes sz1 False args) (\<lambda>(sz, needs_ad).
       jbind (jit_var_is_zero_literal msk) (\<lambda>zero_mask.
         ad_call_select e backend domain
           (if domain \<noteq> None then env_registry_id_bound e else callable_count0)
           sz needs_ad zero_mask is_getter index msk args rv func ad)))))"

text \<open>
  The \<open>try\<close> block of \<open>ad_call\<close>: the result or the exception, and what happened to the
  payload inside the block. The \<open>CallOp\<close> is held by a reference-counted pointer local
  to the block, so it is destroyed when the block is left, unless \<open>ad_custom_op\<close>
  attached it to the AD graph, which then owns it. With a domain the \<open>CallOp\<close> is given
  the callable count 0.
\<close>

definition ad_call_try ::
  "env \<Rightarrow> JitBackend \<Rightarrow> string option \<Rightarrow> nat \<Rightarrow> bool \<Rightarrow> u32 \<Rightarrow> u32 \<Rightarrow> u64 list \<Rightarrow> u64 list
    \<Rightarrow> ad_call_func \<Rightarrow> bool \<Rightarrow> bool \<Rightarrow> jit_state
    \<Rightarrow> ((error + bool \<times> u64 list) \<times> payload_event list) \<times> jit_state" where
  "ad_call_try e backend domain callable_count is_getter index msk args rv func cleanup ad s =
    (case ad_call_strategy e backend domain callable_count is_getter index msk args rv func ad s of
       (Inl err, s1) \<Rightarrow> ((Inl err, []), s1)
     | (Inr (Degenerate rv1), s1) \<Rightarrow> ((Inr (True, rv1), []), s1)
     | (Inr (Dispatched rv1 rv_ad implicit_in needs_ad0 ad1), s1) \<Rightarrow>
         (let needs_ad = (needs_ad0 \<or> True \<in> set rv_ad) in
          if ad1 \<and> needs_ad then
            (let op = CallOp_new backend domain index msk
                        (if domain \<noteq> None then 0 else callable_count)
                        args func cleanup
             in case ad_call_attach e args rv1 rv_ad implicit_in op s1 of
                  (Inl err, s2) \<Rightarrow> ((Inl err, CallOpCreated # CallOp_destroy op), s2)
                | (Inr (True, rv2, op1), s2) \<Rightarrow> ((Inr (False, rv2), [CallOpCreated]), s2)
                | (Inr (False, rv2, op1), s2) \<Rightarrow>
                    ((Inr (True, map detach rv2),
                      CallOpCreated # CallOp_destroy (disable_deleter op1)), s2))
          else ((Inr (True, rv1), []), s1)))"

text \<open>
  \<open>ad_call\<close>: the handler \<open>catch (...)\<close> calls the cleanup function when one was passed
  and throws again.
\<close>

definition ad_call ::
  "env \<Rightarrow> JitBackend \<Rightarrow> string option \<Rightarrow> nat \<Rightarrow> bool \<Rightarrow> u32 \<Rightarrow> u32 \<Rightarrow> u64 list \<Rightarrow> u64 list
    \<Rightarrow> ad_call_func \<Rightarrow> bool \<Rightarrow> bool \<Rightarrow> jit_state
    \<Rightarrow> ((error + bool \<times> u64 list) \<times> payload_event list) \<times> jit_state" where
  "ad_call e backend domain callable_count is_getter index msk args rv func cleanup ad s =
    (case ad_call_try e backend domain callable_count is_getter index msk args rv func cleanup ad s of
       ((Inl err, evs), s') \<Rightarrow>
         ((Inl err, evs @ (if cleanup then [CleanupCalled] else [])), s')
     | ((Inr r, evs), s') \<Rightarrow> ((Inr r, evs), s'))"

section \<open>The AD passes of CallOp\<close>

text \<open>
  Modelled from the spec: \<open>ad_grad\<close> returns a new handle to the gradient the AD engine
  holds for the AD part of its argument, and \<open>ad_var_copy\<close> a copy of a variable with an
  AD node of its own. \<open>ad_accum_grad\<close>, \<open>ad_enqueue\<close> and \<open>ad_traverse\<close> act on the
  AD graph only, which is not part of the JIT state; of the loops that call them, the
  reads of \<open>args\<close> remain.
\<close>

definition ad_grad :: "env \<Rightarrow> u64 \<Rightarrow> u32 jit" where
  "ad_grad e index = jit_var_new (env_ad_grad e (ad_part index))"

definition ad_var_copy :: "u64 \<Rightarrow> u64 jit" where
  "ad_var_copy index = ad_var_new (ir_part index)"

text \<open>
  The start of both callbacks: \<open>m_args2\<close> receives the first \<open>m_args.size()\<close> entries
  of \<open>args\<close>, and every differentiable input is replaced by a new AD variable.
\<close>

definition cb_copy_args :: "nat \<Rightarrow> u64 list \<Rightarrow> (u64 list) jit" where
  "cb_copy_args n args = (if length args < n then throw OutOfBounds else ret (take n args))"

fun cb_new_inputs :: "u32 list \<Rightarrow> u64 list \<Rightarrow> (u64 list) jit" where
  "cb_new_inputs [] m_args2 = ret m_args2"
| "cb_new_inputs (off # rest) m_args2 =
    jbind (vec_get m_args2 (unat off)) (\<lambda>index.
    jbind (ad_var_new (ir_part index)) (\<lambda>index_new.
    jbind (vec_set m_args2 (unat off) index_new) (\<lambda>m_args2'. cb_new_inputs rest m_args2')))"

text \<open>The reads \<open>args[m_args.size() + i]\<close> of the accumulation loops.\<close>

definition cb_read_grads :: "nat \<Rightarrow> nat \<Rightarrow> u64 list \<Rightarrow> unit jit" where
  "cb_read_grads n k args = (if length args < n + k then throw OutOfBounds else ret ())"

text \<open>The gradients of the entries of \<open>xs\<close> at the given offsets.\<close>

fun cb_grads :: "env \<Rightarrow> u32 list \<Rightarrow> u64 list \<Rightarrow> (u32 list) jit" where
  "cb_grads e [] xs = ret []"
| "cb_grads e (off # rest) xs =
    jbind (vec_get xs (unat off)) (\<lambda>h.
    jbind (ad_grad e h) (\<lambda>g.
    jbind (cb_grads e rest xs) (\<lambda>gs. ret (g # gs))))"

fun cb_copies :: "u32 list \<Rightarrow> u64 list \<Rightarrow> unit jit" where
  "cb_copies [] xs = ret ()"
| "cb_copies (off # rest) xs =
    jbind (vec_get xs (unat off)) (\<lambda>index.
    jbind (ad_var_copy index) (\<lambda>index_new. cb_copies rest xs))"

definition forward_cb :: "env \<Rightarrow> CallOp \<Rightarrow> ad_call_func" where
  "forward_cb e op self args rv =
    jbind (cb_copy_args (length (m_args op)) args) (\<lambda>m_args2.
    jbind (cb_new_inputs (m_input_offsets op) m_args2) (\<lambda>m_args2'.
    jbind (m_func op self m_args2' []) (\<lambda>m_rv2.
    jbind (cb_read_grads (length (m_args op)) (length (m_input_offsets op)) args) (\<lambda>_.
    jbind (cb_grads e (m_output_offsets op) m_rv2) (\<lambda>grads.
      ret (rv @ map ucast grads))))))"

definition backward_cb :: "env \<Rightarrow> CallOp \<Rightarrow> ad_call_func" where
  "backward_cb e op self args rv =
    jbind (cb_copy_args (length (m_args op)) args) (\<lambda>m_args2.
    jbind (cb_new_inputs (m_input_offsets op) m_args2) (\<lambda>m_args2'.
    jbind (m_func op self m_args2' []) (\<lambda>m_rv2.
    jbind (cb_read_grads (length (m_args op)) (length (m_output_offsets op)) args) (\<lambda>_.
    jbind (cb_copies (m_output_offsets op) m_rv2) (\<lambda>_.
    jbind (cb_grads e (m_input_offsets op) m_args2') (\<lambda>grads.
      ret (rv @ map ucast grads)))))))"

text \<open>
  The argument vector of the re-entrant call: the saved inputs, followed by the gradients
  of the AD nodes at the first \<open>k\<close> positions of \<open>indices\<close>.
\<close>

fun pass_grads :: "env \<Rightarrow> u32 list \<Rightarrow> nat list \<Rightarrow> (u32 list) jit" where
  "pass_grads e indices [] = ret []"
| "pass_grads e indices (i # rest) =
    jbind (vec_get indices i) (\<lambda>a.
    jbind (ad_grad e (combine a 0)) (\<lambda>g.
    jbind (pass_grads e indices rest) (\<lambda>gs. ret (g # gs))))"

definition pass_args :: "env \<Rightarrow> CallOp \<Rightarrow> u32 list \<Rightarrow> nat \<Rightarrow> (u64 list) jit" where
  "pass_args e op indices k =
    jbind (pass_grads e indices [0..<k]) (\<lambda>gs. ret (map ucast (m_args op) @ map ucast gs))"

text \<open>
  \<open>CallOp::forward\<close> and \<open>CallOp::backward\<close>: the re-entrant call of \<open>ad_call\<close> (no
  getter, no cleanup function, \<open>ad\<close> false) and the assertion on the number of results.
  The result carries what the re-entrant call did to the payload.
\<close>

definition forward ::
  "env \<Rightarrow> CallOp \<Rightarrow> jit_state \<Rightarrow> ((error + unit) \<times> payload_event list) \<times> jit_state" where
  "forward e op s =
    (case pass_args e op (m_input_indices op) (length (m_input_offsets op)) s of
       (Inl err, s1) \<Rightarrow> ((Inl err, []), s1)
     | (Inr args, s1) \<Rightarrow>
         (case ad_call e (m_backend op) (m_domain op) (m_callable_count op) False (m_index op)
                 (m_mask op) args [] (forward_cb e op) False False s1 of
            ((Inl err, evs), s2) \<Rightarrow> ((Inl err, evs), s2)
          | ((Inr (b, rv), evs), s2) \<Rightarrow>
              if length rv \<noteq> length (m_output_offsets op) then ((Inl InternalInvariant, evs), s2)
              else ((Inr (), evs), s2)))"

definition backward ::
  "env \<Rightarrow> CallOp \<Rightarrow> jit_state \<Rightarrow> ((error + unit) \<times> payload_event list) \<times> jit_state" where
  "backward e op s =
    (case pass_args e op (m_output_indices op) (length (m_output_offsets op)) s of
       (Inl err, s1) \<Rightarrow> ((Inl err, []), s1)
     | (Inr args, s1) \<Rightarrow>
         (case ad_call e (m_backend op) (m_domain op) (m_callable_count op) False (m_index op)
                 (m_mask op) args [] (backward_cb e op) False False s1 of
            ((Inl err, evs), s2) \<Rightarrow> ((Inl err, evs), s2)
          | ((Inr (b, rv), evs), s2) \<Rightarrow>
              if length rv \<noteq> length (m_input_offsets op) then ((Inl InternalInvariant, evs), s2)
              else ((Inr (), evs), s2)))"

section \<open>The if statement (src/python/if\_stmt.cpp)\<close>

text \<open>
  The condition object as \<open>if_stmt\<close> inspects it: a Python \<open>bool\<close>, an instance of a
  Dr.Jit array type (with the fields of its \<open>ArraySupplement\<close> that are read and the
  value \<open>s.index(inst_ptr(cond))\<close>), or any other object.
\<close>

record ArraySupplement =
  s_type :: VarType
  s_ndim :: nat
  s_backend :: JitBackend

datatype py_cond = PyBool bool | DrJitArray ArraySupplement u64 | PyOther nat

text \<open>
  What \<open>if_stmt\<close> does to its collaborators, in order: a call of \<open>true_fn\<close>, a call of
  \<open>false_fn\<close>, the call of \<open>ad_cond\<close>.
\<close>

datatype if_event = CallTrueFn | CallFalseFn | EnterAdCond

text \<open>
  \<open>nb::cast<bool>\<close>: a Python \<open>bool\<close> converts to its value; for every other object
  the outcome is the parameter \<open>conv\<close> (\<open>None\<close>: the cast throws).
\<close>

definition nb_cast_bool :: "(py_cond \<Rightarrow> bool option) \<Rightarrow> py_cond \<Rightarrow> bool option" where
  "nb_cast_bool conv c = (case c of PyBool b \<Rightarrow> Some b | _ \<Rightarrow> conv c)"

text \<open>
  The body of the \<open>try\<close> block of \<open>if_stmt\<close>. The branch callables may throw; \<open>ad_cond\<close>
  (not part of this file) is a parameter that receives the backend, the \<open>symbolic\<close>
  selector and the index of the condition, and yields its outcome and the calls it made.
\<close>

definition if_stmt_body ::
  "(py_cond \<Rightarrow> bool option) \<Rightarrow>
   (JitBackend \<Rightarrow> int \<Rightarrow> u32 \<Rightarrow> (error + 'rv) \<times> if_event list) \<Rightarrow>
   'args \<Rightarrow> py_cond \<Rightarrow> ('args \<Rightarrow> error + 'rv) \<Rightarrow> ('args \<Rightarrow> error + 'rv) \<Rightarrow> string \<Rightarrow>
   (error + 'rv) \<times> if_event list" where
  "if_stmt_body conv ad_cond args cond true_fn false_fn mode =
    (let is_scalar0 = (mode = ''scalar'');
         is_auto = (mode = ''auto'');
         is_scalar = (if is_auto then (case cond of PyBool _ \<Rightarrow> True | _ \<Rightarrow> False) else is_scalar0);
         found = (case cond of
                    DrJitArray s idx \<Rightarrow>
                      if s_type s = Bool \<and> s_ndim s = 1 \<and> s_backend s \<noteq> NoBackend
                      then Some (s_backend s, (ucast idx :: u32))
                      else None
                  | _ \<Rightarrow> None);
         backend = (case found of Some (b, _) \<Rightarrow> b | None \<Rightarrow> NoBackend);
         cond_index = (case found of Some (_, i) \<Rightarrow> i | None \<Rightarrow> 0)
     in
       if \<not> is_scalar \<and> found \<noteq> None \<and> cond_index = 0 then (Inl CondEmpty, [])
       else if \<not> is_scalar \<and> cond_index = 0 then (Inl CondInvalid, [])
       else if is_scalar then
         (case nb_cast_bool conv cond of
            None \<Rightarrow> (Inl CastError, [])
          | Some True \<Rightarrow> (true_fn args, [CallTrueFn])
          | Some False \<Rightarrow> (false_fn args, [CallFalseFn]))
       else if is_auto then
         (let (r, evs) = ad_cond backend (-1) cond_index in (r, EnterAdCond # evs))
       else if mode = ''symbolic'' then
         (let (r, evs) = ad_cond backend 1 cond_index in (r, EnterAdCond # evs))
       else if mode = ''evaluated'' then
         (let (r, evs) = ad_cond backend 0 cond_index in (r, EnterAdCond # evs))
       else (Inl InvalidMode, []))"

text \<open>
  \<open>if_stmt\<close>: both \<open>catch\<close> clauses turn the exception into a Python
  \<open>RuntimeError\<close> and throw again.
\<close>

definition if_stmt ::
  "(py_cond \<Rightarrow> bool option) \<Rightarrow>
   (JitBackend \<Rightarrow> int \<Rightarrow> u32 \<Rightarrow> (error + 'rv) \<times> if_event list) \<Rightarrow>
   'args \<Rightarrow> py_cond \<Rightarrow> ('args \<Rightarrow> error + 'rv) \<Rightarrow> ('args \<Rightarrow> error + 'rv) \<Rightarrow> string \<Rightarrow>
   (error + 'rv) \<times> if_event list" where
  "if_stmt conv ad_cond args cond true_fn false_fn mode =
    (case if_stmt_body conv ad_cond args cond true_fn false_fn mode of
       (Inl e, evs) \<Rightarrow> (Inl (RuntimeError e), evs)
     | (Inr v, evs) \<Rightarrow> (Inr v, evs))"

section \<open>The loop state of the while loop (struct LoopState)\<close>

text \<open>
  The state tuple is a tree of Python objects. Every object has an identity (the pointer
  \<open>h.ptr()\<close> that the cycle guard compares) and a type (the handle \<open>h.type()\<close> that
  \<open>traverse\<close> compares by identity). The constructors are the cases \<open>traverse\<close>
  distinguishes: a Dr.Jit tensor (its array is the only child), a Dr.Jit array with
  \<open>ndim > 1\<close> (its items), a Dr.Jit array with an \<open>index\<close> function (a leaf holding
  that index), any other Dr.Jit array, a list, a tuple, a dict (keys that are not \<open>str\<close>
  are \<open>None\<close>), an object whose type has a \<open>DRJIT_STRUCT\<close> dict (its fields), and
  anything else.
\<close>

datatype pytype = PyList_Type | PyTuple_Type | PyDict_Type | DrJitType nat | OtherType nat

datatype pyobj =
    DrJitTensor nat nat pyobj
  | DrJitNested nat nat "pyobj list"
  | DrJitLeaf nat nat u64
  | DrJitScalar nat nat
  | PyList nat "pyobj list"
  | PyTuple nat "pyobj list"
  | PyDict nat "(string option \<times> pyobj) list"
  | PyStruct nat nat "(string \<times> pyobj) list"
  | PyOpaque nat nat

fun ptr_of :: "pyobj \<Rightarrow> nat" where
  "ptr_of (DrJitTensor p _ _) = p"
| "ptr_of (DrJitNested p _ _) = p"
| "ptr_of (DrJitLeaf p _ _) = p"
| "ptr_of (DrJitScalar p _) = p"
| "ptr_of (PyList p _) = p"
| "ptr_of (PyTuple p _) = p"
| "ptr_of (PyDict p _) = p"
| "ptr_of (PyStruct p _ _) = p"
| "ptr_of (PyOpaque p _) = p"

fun type_of :: "pyobj \<Rightarrow> pytype" where
  "type_of (DrJitTensor _ t _) = DrJitType t"
| "type_of (DrJitNested _ t _) = DrJitType t"
| "type_of (DrJitLeaf _ t _) = DrJitType t"
| "type_of (DrJitScalar _ t) = DrJitType t"
| "type_of (PyList _ _) = PyList_Type"
| "type_of (PyTuple _ _) = PyTuple_Type"
| "type_of (PyDict _ _) = PyDict_Type"
| "type_of (PyStruct _ t _) = OtherType t"
| "type_of (PyOpaque _ t) = OtherType t"

record Entry =
  e_name :: string
  e_type :: pytype
  e_id :: u64
  e_size :: nat

text \<open>
  The fields of \<open>LoopState\<close> that \<open>traverse\<close> reads and writes, and the vector
  \<open>indices\<close> it is called with (filled when reading, consumed when writing).
\<close>

record LoopState =
  entries :: "Entry list"
  stack :: "nat list"
  name :: string
  first_time :: bool
  entry_pos :: nat
  indices_pos :: nat
  loop_size :: nat
  indices :: "u64 list"

text \<open>\<open>std::to_string\<close> on an unsigned number, and \<open>std::string::resize\<close>.\<close>

definition digit :: "nat \<Rightarrow> char" where
  "digit n = (''0123456789'' ! n)"

function to_string :: "nat \<Rightarrow> string" where
  "to_string n = (if n < 10 then [digit n] else to_string (n div 10) @ [digit (n mod 10)])"
  by pat_completeness auto
termination
  by (relation "measure id") auto

declare to_string.simps [simp del]

definition resize :: "nat \<Rightarrow> string \<Rightarrow> string" where
  "resize n s = take n s @ replicate (n - length s) (CHR 0x00)"

text \<open>
  The bookkeeping at the head of the private \<open>traverse\<close>: on the first pass a new entry
  \<open>(name, type, 0, 0)\<close> is appended, on later passes the next entry must exist and carry
  the same name and type. The result is the position of the entry (\<open>id\<close> in the source, \<open>eid\<close> here).
\<close>

definition enter_entry :: "pytype \<Rightarrow> LoopState \<Rightarrow> error + nat \<times> LoopState" where
  "enter_entry tp st =
    (if first_time st then
       Inr (length (entries st),
            st\<lparr>entries := entries st @ [\<lparr>e_name = name st, e_type = tp, e_id = 0, e_size = 0\<rparr>]\<rparr>)
     else
       (let eid = entry_pos st; st1 = st\<lparr>entry_pos := Suc (entry_pos st)\<rparr> in
        if eid \<ge> length (entries st1) then Inl LoopStateChanged
        else if name st1 \<noteq> e_name (entries st1 ! eid) then Inl LoopStateChanged
        else if tp \<noteq> e_type (entries st1 ! eid) then Inl LoopStateChanged
        else Inr (eid, st1)))"

text \<open>
  The branch \<open>else if (s.index)\<close> of \<open>traverse\<close>, for the leaf with index \<open>i2\<close> whose
  entry is at position \<open>id\<close>. \<open>jit_var_size\<close> and \<open>jit_var_is_dirty\<close> of the IR backend are the
  parameters \<open>var_size\<close> and \<open>var_is_dirty\<close>. The local \<open>i1\<close> is a copy of the entry's id, so the
  assignment \<open>i1 = i2\<close> changes no entry; \<open>s1\<close> is a reference, so \<open>s1 = s2\<close> stores
  the size. The result is the index the object holds afterwards.
\<close>

definition traverse_index ::
  "bool \<Rightarrow> (u32 \<Rightarrow> nat) \<Rightarrow> (u32 \<Rightarrow> bool) \<Rightarrow> nat \<Rightarrow> u64 \<Rightarrow> LoopState \<Rightarrow> error + u64 \<times> LoopState" where
  "traverse_index write var_size var_is_dirty eid i2 st =
    (let i1 = e_id (entries st ! eid);
         s1 = e_size (entries st ! eid);
         s2 = var_size (ucast i2)
     in
     if \<not> first_time st \<and> s1 \<noteq> s2 \<and> s1 \<noteq> 1 \<and> s2 \<noteq> 1 then Inl LoopSizeConflict
     else if loop_size st \<noteq> s2 \<and> i1 \<noteq> i2 \<and> \<not> var_is_dirty (ucast i2)
             \<and> loop_size st \<noteq> 1 \<and> s2 \<noteq> 1 then Inl LoopSizeIncompatible
     else
       (let st1 = (if loop_size st \<noteq> s2 \<and> i1 \<noteq> i2 \<and> \<not> var_is_dirty (ucast i2)
                   then st\<lparr>loop_size := max (loop_size st) s2\<rparr> else st)
        in
        if write then
          (if indices_pos st1 \<ge> length (indices st1) then Inl InternalInvariant
           else
             (let i2' = indices st1 ! indices_pos st1;
                  s2' = var_size (ucast i2')
              in Inr (i2', st1\<lparr>indices_pos := Suc (indices_pos st1),
                                entries := (entries st1)[eid := (entries st1 ! eid)\<lparr>e_size := s2'\<rparr>]\<rparr>)))
        else
          Inr (i2, st1\<lparr>indices := indices st1 @ [i2],
                       entries := (entries st1)[eid := (entries st1 ! eid)\<lparr>e_size := s2\<rparr>]\<rparr>)))"

text \<open>
  The private, recursive \<open>traverse\<close>. It returns the object as it is after the pass (a
  write pass replaces every leaf by an instance holding the new index) and the new loop
  state. The four list functions are the loops over the items of a nested array, list or
  tuple (\<open>traverse_seq\<close>, with the running counter), of a dict (\<open>traverse_dict\<close>) and
  of the fields of a struct (\<open>traverse_struct\<close>).
\<close>

fun traverse ::
    "bool \<Rightarrow> (u32 \<Rightarrow> nat) \<Rightarrow> (u32 \<Rightarrow> bool) \<Rightarrow> pyobj \<Rightarrow> LoopState \<Rightarrow> error + pyobj \<times> LoopState"
  and traverse_seq ::
    "bool \<Rightarrow> (u32 \<Rightarrow> nat) \<Rightarrow> (u32 \<Rightarrow> bool) \<Rightarrow> nat \<Rightarrow> nat \<Rightarrow> pyobj list \<Rightarrow> LoopState
      \<Rightarrow> error + pyobj list \<times> LoopState"
  and traverse_dict ::
    "bool \<Rightarrow> (u32 \<Rightarrow> nat) \<Rightarrow> (u32 \<Rightarrow> bool) \<Rightarrow> nat \<Rightarrow> (string option \<times> pyobj) list \<Rightarrow> LoopState
      \<Rightarrow> error + (string option \<times> pyobj) list \<times> LoopState"
  and traverse_struct ::
    "bool \<Rightarrow> (u32 \<Rightarrow> nat) \<Rightarrow> (u32 \<Rightarrow> bool) \<Rightarrow> nat \<Rightarrow> (string \<times> pyobj) list \<Rightarrow> LoopState
      \<Rightarrow> error + (string \<times> pyobj) list \<times> LoopState"
where
  "traverse w sz dirty h st =
    (if ptr_of h \<in> set (stack st) then Inr (h, st)
     else
       (case enter_entry (type_of h) (st\<lparr>stack := stack st @ [ptr_of h]\<rparr>) of
          Inl e \<Rightarrow> Inl e
        | Inr (eid, st1) \<Rightarrow>
           (let name_size = length (name st1) in
            case
              (case h of
                 DrJitTensor p t a \<Rightarrow>
                   (case traverse w sz dirty a (st1\<lparr>name := name st1 @ ''.array''\<rparr>) of
                      Inl e \<Rightarrow> Inl e
                    | Inr (a', st2) \<Rightarrow>
                        Inr (DrJitTensor p t a', st2\<lparr>name := resize name_size (name st2)\<rparr>))
               | DrJitNested p t xs \<Rightarrow>
                   (case traverse_seq w sz dirty name_size 0 xs st1 of
                      Inl e \<Rightarrow> Inl e
                    | Inr (xs', st2) \<Rightarrow> Inr (DrJitNested p t xs', st2))
               | DrJitLeaf p t i2 \<Rightarrow>
                   (case traverse_index w sz dirty eid i2 st1 of
                      Inl e \<Rightarrow> Inl e
                    | Inr (i2', st2) \<Rightarrow> Inr (DrJitLeaf p t i2', st2))
               | DrJitScalar p t \<Rightarrow> Inr (h, st1)
               | PyList p xs \<Rightarrow>
                   (case traverse_seq w sz dirty name_size 0 xs st1 of
                      Inl e \<Rightarrow> Inl e
                    | Inr (xs', st2) \<Rightarrow> Inr (PyList p xs', st2))
               | PyTuple p xs \<Rightarrow>
                   (case traverse_seq w sz dirty name_size 0 xs st1 of
                      Inl e \<Rightarrow> Inl e
                    | Inr (xs', st2) \<Rightarrow> Inr (PyTuple p xs', st2))
               | PyDict p kvs \<Rightarrow>
                   (case traverse_dict w sz dirty name_size kvs st1 of
                      Inl e \<Rightarrow> Inl e
                    | Inr (kvs', st2) \<Rightarrow> Inr (PyDict p kvs', st2))
               | PyStruct p t fs \<Rightarrow>
                   (case traverse_struct w sz dirty name_size fs st1 of
                      Inl e \<Rightarrow> Inl e
                    | Inr (fs', st2) \<Rightarrow> Inr (PyStruct p t fs', st2))
               | PyOpaque p t \<Rightarrow> Inr (h, st1))
            of
              Inl e \<Rightarrow> Inl e
            | Inr (h', st3) \<Rightarrow> Inr (h', st3\<lparr>stack := butlast (stack st3)\<rparr>))))"
| "traverse_seq w sz dirty name_size ctr [] st = Inr ([], st)"
| "traverse_seq w sz dirty name_size ctr (x # xs) st =
    (case traverse w sz dirty x (st\<lparr>name := name st @ ''['' @ to_string ctr @ '']''\<rparr>) of
       Inl e \<Rightarrow> Inl e
     | Inr (x', st1) \<Rightarrow>
        (case traverse_seq w sz dirty name_size (Suc ctr) xs
                (st1\<lparr>name := resize name_size (name st1)\<rparr>) of
           Inl e \<Rightarrow> Inl e
         | Inr (xs', st2) \<Rightarrow> Inr (x' # xs', st2)))"
| "traverse_dict w sz dirty name_size [] st = Inr ([], st)"
| "traverse_dict w sz dirty name_size ((k, v) # kvs) st =
    (case k of
       None \<Rightarrow>
        (case traverse_dict w sz dirty name_size kvs st of
           Inl e \<Rightarrow> Inl e
         | Inr (kvs', st2) \<Rightarrow> Inr ((k, v) # kvs', st2))
     | Some key \<Rightarrow>
        (case traverse w sz dirty v
                (st\<lparr>name := (if length (stack st) = 1 then key
                               else name st @ ''['' @ [CHR 0x27] @ key @ [CHR 0x27] @ '']'')\<rparr>) of
           Inl e \<Rightarrow> Inl e
         | Inr (v', st1) \<Rightarrow>
            (case traverse_dict w sz dirty name_size kvs
                    (st1\<lparr>name := resize name_size (name st1)\<rparr>) of
               Inl e \<Rightarrow> Inl e
             | Inr (kvs', st2) \<Rightarrow> Inr ((k, v') # kvs', st2))))"
| "traverse_struct w sz dirty name_size [] st = Inr ([], st)"
| "traverse_struct w sz dirty name_size ((k, v) # fs) st =
    (case traverse w sz dirty v (st\<lparr>name := name st @ ''.'' @ k\<rparr>) of
       Inl e \<Rightarrow> Inl e
     | Inr (v', st1) \<Rightarrow>
        (case traverse_struct w sz dirty name_size fs
                (st1\<lparr>name := resize name_size (name st1)\<rparr>) of
           Inl e \<Rightarrow> Inl e
         | Inr (fs', st2) \<Rightarrow> Inr ((k, v') # fs', st2)))"

declare traverse.simps [simp del]

text \<open>
  The public \<open>traverse\<close>: the loop over the elements of the state tuple, named by their
  label or by \<open>arg\<close> and their position.
\<close>

fun traverse_state ::
  "bool \<Rightarrow> (u32 \<Rightarrow> nat) \<Rightarrow> (u32 \<Rightarrow> bool) \<Rightarrow> string list \<Rightarrow> nat \<Rightarrow> pyobj list \<Rightarrow> LoopState
    \<Rightarrow> error + pyobj list \<times> LoopState" where
  "traverse_state w sz dirty labels i [] st = Inr ([], st)"
| "traverse_state w sz dirty labels i (x # xs) st =
    (case traverse w sz dirty x
            (st\<lparr>name := (if labels \<noteq> [] then labels ! i else ''arg'' @ to_string i)\<rparr>) of
       Inl e \<Rightarrow> Inl e
     | Inr (x', st1) \<Rightarrow>
        (case traverse_state w sz dirty labels (Suc i) xs st1 of
           Inl e \<Rightarrow> Inl e
         | Inr (xs', st2) \<Rightarrow> Inr (x' # xs', st2)))"

definition traverse_top ::
  "bool \<Rightarrow> (u32 \<Rightarrow> nat) \<Rightarrow> (u32 \<Rightarrow> bool) \<Rightarrow> string list \<Rightarrow> pyobj list \<Rightarrow> LoopState
    \<Rightarrow> error + pyobj list \<times> LoopState" where
  "traverse_top w sz dirty state_labels state st =
    (let l1 = length state; l2 = length state_labels in
     if l2 \<noteq> 0 \<and> l1 \<noteq> l2 then Inl LabelSizeMismatch
     else
       (let st0 = (if w then st\<lparr>indices_pos := 0\<rparr> else st)\<lparr>entry_pos := 0, stack := []\<rparr> in
        case traverse_state w sz dirty state_labels 0 state st0 of
          Inl e \<Rightarrow> Inl e
        | Inr (state', st1) \<Rightarrow>
            if w \<and> indices_pos st1 \<noteq> length (indices st1) then Inl InternalInvariant
            else Inr (state', st1\<lparr>first_time := False\<rparr>)))"

text \<open>
  A loop state as it stands after a first pass over a state tuple that holds one leaf
  \<open>arg0\<close> of size 5, used to run later passes on concrete data.
\<close>

definition later_pass :: LoopState where
  "later_pass =
    \<lparr>entries = [\<lparr>e_name = ''arg0'', e_type = DrJitType 0, e_id = 0, e_size = 5\<rparr>],
     stack = [], name = ''arg0'', first_time = False, entry_pos = 0, indices_pos = 0,
     loop_size = 5, indices = []\<rparr>"

section \<open>Properties of computations and concrete inputs\<close>

text \<open>
  \<open>appends P m\<close>: from every state, the computation \<open>m\<close> only appends to the log, and
  every event it appends satisfies \<open>P\<close>.
\<close>

definition appends :: "(event \<Rightarrow> bool) \<Rightarrow> 'a jit \<Rightarrow> bool" where
  "appends P m = (\<forall>s. \<exists>evs. trace (snd (m s)) = trace s @ evs \<and> list_all P evs)"

named_theorems appends_intros

text \<open>
  A JIT state with three evaluated arrays of four lanes: an instance index (handle 1), a
  mask (handle 2) and a floating point argument (handle 3); an environment without
  registry in which \<open>ad_custom_op\<close> reports that the operation is not needed; and a
  callback that returns the arguments it was given.
\<close>

definition example_state :: jit_state where
  "example_state =
    \<lparr>vars = [\<lparr>v_type = UInt32, v_backend = LLVM, v_size = 4, v_state = Evaluated, v_def = DOpaque 0\<rparr>,
             \<lparr>v_type = Bool, v_backend = LLVM, v_size = 4, v_state = Evaluated, v_def = DOpaque 1\<rparr>,
             \<lparr>v_type = Float32, v_backend = LLVM, v_size = 4, v_state = Evaluated, v_def = DOpaque 2\<rparr>],
     mask_stack = [], self_value = 0, self_index = 0, record_stack = [], discarded = [],
     scope = 0, scope_count = 0, ad_nodes = 0, heap_blocks = 0, aggregates = [],
     flag_vcall_record = False, flag_symbolic = False, trace = []\<rparr>"

definition example_env :: env where
  "example_env =
    \<lparr>env_registry_ptr = (\<lambda>_. 0), env_registry_id_bound = 0, env_call_buckets = [],
     env_implicit_deps = [], env_custom_op = Inr False,
     env_ad_grad = (\<lambda>_. \<lparr>v_type = Float32, v_backend = LLVM, v_size = 1, v_state = Literal,
                          v_def = DLiteral 0\<rparr>)\<rparr>"

definition echo :: ad_call_func where
  "echo ptr args rv = ret (rv @ args)"

text \<open>
  Two more callbacks: one that returns a new literal of size 1 whose value depends on the
  instance, and one that returns a zero handle.
\<close>

definition fresh_literal :: ad_call_func where
  "fresh_literal ptr args rv =
     jbind (jit_var_literal LLVM Float32 (of_nat ptr + 5) 1) (\<lambda>l. ret [ucast l])"

definition zero_handle :: ad_call_func where
  "zero_handle ptr args rv = ret [0]"

text \<open>
  An environment with a registry for the domain: the id bound is 2, the instance with
  id 1 is registered (at pointer 1) and the instance with id 2 is not (any more).
\<close>

definition last_unregistered :: env where
  "last_unregistered =
     example_env\<lparr>env_registry_ptr := (\<lambda>i. if i = 1 then 1 else 0), env_registry_id_bound := 2\<rparr>"

text \<open>
  Two handles of the same output slot agree: the second is non-zero, lives on the backend
  of the dispatch and has the type of the first.
\<close>

definition agrees :: "jit_state \<Rightarrow> JitBackend \<Rightarrow> u64 \<Rightarrow> u64 \<Rightarrow> bool" where
  "agrees s backend i1 i2 =
    (i2 \<noteq> 0 \<and>
     (case (jit_var s (ir_part i1), jit_var s (ir_part i2)) of
        (Some v1, Some v2) \<Rightarrow> v_backend v2 = backend \<and> v_type v1 = v_type v2
      | _ \<Rightarrow> False))"

text \<open>
  Every handle of a vector has a non-zero IR part; and a callback that keeps this: when it
  returns, the vector it filled holds only such handles.
\<close>

definition nonzero_ir :: "u64 list \<Rightarrow> bool" where
  "nonzero_ir rv = (\<forall>h \<in> set rv. ir_part h \<noteq> 0)"

definition returns_nonzero :: "ad_call_func \<Rightarrow> bool" where
  "returns_nonzero func =
    (\<forall>ptr args rv s r s'. func ptr args rv s = (Inr r, s') \<longrightarrow> nonzero_ir rv \<longrightarrow> nonzero_ir r)"

text \<open>
  The graph of a later state extends that of an earlier one: nodes are only added, so a
  handle that is valid keeps its node. A callback extends the graph when every call of it
  that returns leaves the existing nodes as they are. Likewise for the list of
  aggregations.
\<close>

definition grows :: "jit_state \<Rightarrow> jit_state \<Rightarrow> bool" where
  "grows s s' = (\<exists>ys. vars s' = vars s @ ys)"

definition extends_graph :: "ad_call_func \<Rightarrow> bool" where
  "extends_graph func = (\<forall>ptr args rv s r s'. func ptr args rv s = (Inr r, s') \<longrightarrow> grows s s')"

definition aggs_grow :: "jit_state \<Rightarrow> jit_state \<Rightarrow> bool" where
  "aggs_grow s s' = (\<exists>zs. aggregates s' = aggregates s @ zs)"

text \<open>
  The test \<open>is_literal\<close> of the getter strategy as a predicate: in \<open>rv3\<close>, with \<open>n\<close>
  return values per callable, every callable returned for slot \<open>i\<close> the handle the first
  one returned.
\<close>

definition all_same :: "u32 list \<Rightarrow> nat \<Rightarrow> nat \<Rightarrow> nat \<Rightarrow> bool" where
  "all_same rv3 n callable_count i = list_all (\<lambda>j. rv3 ! i = rv3 ! (i + j * n)) [0..<callable_count]"

text \<open>
  \<open>entry_of s h j t en\<close>: \<open>en\<close> is the aggregation entry the getter strategy makes for
  the handle \<open>h\<close> that callable \<open>j\<close> returned, for a type of \<open>t\<close> bytes: it is placed at
  offset \<open>(j + 1) * t\<close> and holds the literal value of \<open>h\<close> or refers to the data of
  \<open>h\<close>. \<open>gathered s di dm rv3 n callable_count i h\<close>: in the state \<open>s\<close> the handle \<open>h\<close>
  is a gather with index \<open>di\<close> under the mask \<open>dm\<close> from a mapped block of memory that
  an aggregation fills with one such entry per callable, for slot \<open>i\<close>.
\<close>

definition entry_of :: "jit_state \<Rightarrow> u32 \<Rightarrow> nat \<Rightarrow> nat \<Rightarrow> AggregationEntry \<Rightarrow> bool" where
  "entry_of s h j t en =
    (agg_offset en = (j + 1) * t \<and>
     (case agg_src en of
        SrcData h' \<Rightarrow> h' = h \<and> agg_size en = - int t
      | SrcLiteral x \<Rightarrow>
          agg_size en = int t \<and>
          (case jit_var s h of
             Some v \<Rightarrow> v_state v = Literal \<and> v_def v = DLiteral x
           | None \<Rightarrow> False)))"

definition gathered ::
  "jit_state \<Rightarrow> vdef \<Rightarrow> vdef \<Rightarrow> u32 list \<Rightarrow> nat \<Rightarrow> nat \<Rightarrow> nat \<Rightarrow> u64 \<Rightarrow> bool" where
  "gathered s di dm rv3 n callable_count i h =
    (case jit_var s (ir_part h) of
       None \<Rightarrow> False
     | Some v \<Rightarrow>
         (case v_def v of
            DGather (DMemMap p) di' dm' \<Rightarrow>
              di' = di \<and> dm' = dm \<and>
              list_ex (\<lambda>(q, agg). q = p \<and> length agg = callable_count \<and>
                         list_all (\<lambda>j. entry_of s (rv3 ! (i + j * n)) j (jit_type_size (v_type v))
                                         (agg ! j)) [0..<callable_count])
                (aggregates s)
          | _ \<Rightarrow> False))"

section \<open>Theorems about the if statement\<close>



text \<open>
  Claim C9. In a non-scalar invocation (the mode is not \<open>scalar\<close>; a Dr.Jit array is not
  a Python \<open>bool\<close>, so \<open>auto\<close> is non-scalar too) whose condition is a Dr.Jit array
  with index zero, \<open>if_stmt\<close> raises before either branch callable is invoked and before
  \<open>ad_cond\<close> is entered: \<open>'cond' cannot be empty\<close> for a one-dimensional Boolean array
  with a JIT backend, and the type error of the condition otherwise.
\<close>

theorem if_stmt_empty_cond_raises:
  "mode \<noteq> ''scalar'' \<Longrightarrow> ucast idx = (0::u32) \<Longrightarrow>
   if_stmt conv ad_cond args (DrJitArray s idx) true_fn false_fn mode =
     (Inl (RuntimeError (if s_type s = Bool \<and> s_ndim s = 1 \<and> s_backend s \<noteq> NoBackend
                         then CondEmpty else CondInvalid)), [])"
  by (simp add: if_stmt_def if_stmt_body_def Let_def)

theorem if_stmt_empty_cond_raises_witness:
  "if_stmt (\<lambda>_. None) (\<lambda>_ _ _. (Inr (0::nat), [CallTrueFn, CallFalseFn])) ()
      (DrJitArray \<lparr>s_type = Bool, s_ndim = 1, s_backend = LLVM\<rparr> 0)
      (\<lambda>_. Inr (1::nat)) (\<lambda>_. Inr 2) ''symbolic'' = (Inl (RuntimeError CondEmpty), [])"
  using if_stmt_empty_cond_raises
          [of "''symbolic''" 0 "\<lambda>_. None" "\<lambda>_ _ _. (Inr (0::nat), [CallTrueFn, CallFalseFn])" "()"
              "\<lparr>s_type = Bool, s_ndim = 1, s_backend = LLVM\<rparr>" "\<lambda>_. Inr (1::nat)" "\<lambda>_. Inr 2"]
  by simp

section \<open>Theorems about the loop state\<close>




section \<open>Evaluation of the model and the log of the dispatcher\<close>

lemmas model_defs = ret_def throw_def jbind_def vec_get_def vec_set_def ir_part_def ad_part_def
  combine_def jit_var_def jit_var_lookup_def jit_var_new_def jit_var_size_def jit_var_type_def
  jit_var_state_def jit_set_backend_def jit_var_is_zero_literal_def jit_type_size_def
  jit_var_literal_def jit_var_u32_def jit_var_bool_def jit_var_neq_def jit_var_and_def
  jit_var_gather_def jit_var_mem_map_def jit_var_opaque_def jit_var_call_input_def
  jit_var_call_mask_def jit_var_mask_default_def jit_var_read_literal_def jit_malloc_def
  jit_aggregate_def jit_var_set_self_def ad_node_new_def ad_var_new_def ad_var_gather_def
  ad_var_scatter_def invoke_def scoped_set_mask_def jit_record_end_def checkpoint_and_rewind_def
  scoped_record_def scoped_set_self_def ad_call_check_rv_def callable_ptr_def

lemmas dispatch_defs = ad_call_def ad_call_try_def ad_call_strategy_def ad_call_select_def
  ad_call_getter_def
  getter_slot_def ad_call_record_def jit_var_call_def ad_call_reduce_def jit_var_call_reduce_def
  jit_flag_vcall_record_def jit_flag_symbolic_def ad_call_attach_def CallOp_new_def
  CallOp_destroy_def add_input_def add_output_def add_index_def ad_custom_op_def
  disable_deleter_def detach_def example_env_def example_state_def echo_def

lemma appends_same: "(\<And>s. trace (snd (m s)) = trace s) \<Longrightarrow> appends P m"
  unfolding appends_def by (intro allI exI[of _ "[]"]) simp

lemma appends_ret [appends_intros]: "appends P (ret x)"
  by (rule appends_same) (simp add: ret_def)

lemma appends_throw [appends_intros]: "appends P (throw e)"
  by (rule appends_same) (simp add: throw_def)

lemma appends_jbind [appends_intros]:
  assumes "appends P m" and "\<And>x. appends P (f x)"
  shows "appends P (jbind m f)"
  unfolding appends_def
proof
  fix s
  obtain evs where 1: "trace (snd (m s)) = trace s @ evs" "list_all P evs"
    using assms(1) unfolding appends_def by blast
  show "\<exists>evs. trace (snd (jbind m f s)) = trace s @ evs \<and> list_all P evs"
  proof (cases "m s")
    case (Pair r s1)
    show ?thesis
    proof (cases r)
      case (Inl e)
      with Pair 1 show ?thesis by (auto simp: jbind_def)
    next
      case (Inr x)
      obtain evs2 where 2: "trace (snd (f x s1)) = trace s1 @ evs2" "list_all P evs2"
        using assms(2) unfolding appends_def by blast
      with Pair Inr 1 show ?thesis
        by (intro exI[of _ "evs @ evs2"]) (simp add: jbind_def)
    qed
  qed
qed

lemma appends_vec_get [appends_intros]: "appends P (vec_get xs i)"
  by (simp add: vec_get_def appends_intros)

lemma appends_vec_set [appends_intros]: "appends P (vec_set xs i v)"
  by (simp add: vec_set_def appends_intros)

lemma appends_lookup [appends_intros]: "appends P (jit_var_lookup h)"
  by (rule appends_same) (simp add: jit_var_lookup_def split: option.splits)

lemma appends_new [appends_intros]: "appends P (jit_var_new v)"
  by (rule appends_same) (simp add: jit_var_new_def)

lemma appends_size [appends_intros]: "appends P (jit_var_size h)"
  by (simp add: jit_var_size_def appends_intros)

lemma appends_type [appends_intros]: "appends P (jit_var_type h)"
  by (simp add: jit_var_type_def appends_intros)

lemma appends_state [appends_intros]: "appends P (jit_var_state h)"
  by (simp add: jit_var_state_def appends_intros)

lemma appends_set_backend [appends_intros]: "appends P (jit_set_backend h)"
  by (simp add: jit_set_backend_def appends_intros)

lemma appends_literal [appends_intros]: "appends P (jit_var_literal b t v n)"
  by (simp add: jit_var_literal_def appends_intros)

lemma appends_u32 [appends_intros]: "appends P (jit_var_u32 b v)"
  by (simp add: jit_var_u32_def appends_intros)

lemma appends_neq [appends_intros]: "appends P (jit_var_neq a b)"
  by (simp add: jit_var_neq_def appends_intros)

lemma appends_and [appends_intros]: "appends P (jit_var_and a b)"
  by (simp add: jit_var_and_def appends_intros)

lemma appends_gather [appends_intros]: "appends P (jit_var_gather a b c)"
  by (simp add: jit_var_gather_def appends_intros)

lemma appends_mem_map [appends_intros]: "appends P (jit_var_mem_map b t p n)"
  by (simp add: jit_var_mem_map_def appends_intros)

lemma appends_read_literal [appends_intros]: "appends P (jit_var_read_literal h)"
  by (auto simp add: jit_var_read_literal_def intro!: appends_intros split: vdef.splits)

lemma appends_malloc [appends_intros]: "appends P (jit_malloc n)"
  by (rule appends_same) (simp add: jit_malloc_def)

lemma appends_aggregate [appends_intros]: "appends P (jit_aggregate p a)"
  by (rule appends_same) (simp add: jit_aggregate_def)

lemma appends_invoke [appends_intros]:
  "P (Invoke ptr args) \<Longrightarrow> appends P (invoke func ptr args rv)"
  unfolding appends_def invoke_def
  by (auto split: prod.splits intro!: exI[of _ "[Invoke ptr args]"])

lemma appends_scoped_record [appends_intros]:
  assumes "\<And>rec. appends P (body rec)"
  shows "appends P (scoped_record body)"
  unfolding appends_def
proof
  fix s :: jit_state
  let ?c = "length (vars s)"
  let ?s2 = "s\<lparr>record_stack := ?c # record_stack s, scope_count := Suc (scope_count s),
                scope := Suc (scope_count s)\<rparr>"
  let ?rec = "\<lparr>rec_checkpoint = ?c, rec_scope = Suc (scope_count s)\<rparr>"
  obtain evs where "trace (snd (body ?rec ?s2)) = trace ?s2 @ evs" "list_all P evs"
    using assms unfolding appends_def by blast
  then show "\<exists>evs. trace (snd (scoped_record body s)) = trace s @ evs \<and> list_all P evs"
    by (intro exI[of _ evs])
       (auto simp: scoped_record_def Let_def jit_record_end_def split: prod.splits sum.splits)
qed

lemma appends_check_rv_first [appends_intros]: "appends P (check_rv_first b n xs)"
  by (induction xs) (auto intro!: appends_intros)

lemma appends_check_rv_rest [appends_intros]: "appends P (check_rv_rest b xs)"
  by (induction xs) (auto intro!: appends_intros)

lemma appends_check_rv [appends_intros]: "appends P (ad_call_check_rv b n i rv rv2)"
  by (auto simp: ad_call_check_rv_def intro!: appends_intros)

lemma appends_getter_move [appends_intros]: "appends P (getter_move xs j rv_ad rv3)"
  by (induction xs arbitrary: j rv_ad rv3) (auto intro!: appends_intros)

lemma appends_getter_loop:
  "(\<And>ptr. P (Invoke ptr [])) \<Longrightarrow> appends P (getter_loop e b d n func callables st)"
proof (induction callables arbitrary: st)
  case Nil
  then show ?case by (auto intro!: appends_intros)
next
  case (Cons i rest)
  obtain rv2 rv rv_ad rv3 where st: "st = (rv2, rv, rv_ad, rv3)" by (cases st) auto
  show ?case unfolding st
    by (auto intro!: appends_intros Cons split: option.splits)
qed

lemma appends_is_literal [appends_intros]: "appends P (getter_is_literal rv3 i n js)"
  by (induction js) (auto intro!: appends_intros)

lemma appends_entries [appends_intros]: "appends P (getter_entries rv3 i n t js)"
  by (induction js) (auto intro!: appends_intros split: VarState.splits)

lemma appends_slot [appends_intros]: "appends P (getter_slot b idx m n rv2 rv3 i)"
  by (auto simp: getter_slot_def intro!: appends_intros)

lemma appends_assemble [appends_intros]:
  "appends P (getter_assemble b idx m n rv2 rv3 slots rv)"
  by (induction slots arbitrary: rv) (auto intro!: appends_intros)

lemma appends_getter:
  "(\<And>ptr. P (Invoke ptr [])) \<Longrightarrow>
   appends P (ad_call_getter e b d n idx m0 cc args rv rv_ad func)"
  by (auto simp: ad_call_getter_def intro!: appends_intros appends_getter_loop)

section \<open>Theorems about the dispatcher\<close>

text \<open>
  Claim C8. Whatever the arguments \<open>args\<close> of the dispatch are, the only events the
  getter strategy appends to the log are invocations of the callback with the empty
  argument vector: the arguments are never forwarded to a callable.
\<close>

theorem getter_invokes_without_args:
  "\<exists>evs. trace (snd (ad_call_getter e backend domain sz index mask0 callable_count args rv
                        rv_ad func s)) = trace s @ evs
         \<and> (\<forall>ev \<in> set evs. \<exists>ptr. ev = Invoke ptr [])"
  using appends_getter [of "\<lambda>ev. \<exists>ptr. ev = Invoke ptr []" e backend domain sz index mask0
                           callable_count args rv rv_ad func]
  unfolding appends_def list_all_iff by auto

theorem getter_invokes_without_args_witness:
  "trace (snd (ad_call_getter example_env LLVM None 4 1 2 2 [3] [] [] echo example_state))
     = [Invoke 0 [], Invoke 1 []]"
  using getter_invokes_without_args [of example_env LLVM None 4 1 2 2 "[3]" "[]" "[]" echo
                                        example_state]
  by (simp add: dispatch_defs model_defs Let_def upt_conv_Cons)

text \<open>
  Claim C10. A dispatch entered with \<open>ad\<close> false constructs no \<open>CallOp\<close>, and the
  forward and the backward pass of a \<open>CallOp\<close> enter the dispatcher in that way: neither
  pass constructs a nested \<open>CallOp\<close>.
\<close>

lemma select_ad_flag:
  "ad_call_select e backend domain n sz na zm is_getter index msk args rv func ad s =
     (Inr (Dispatched rv1 rv_ad imp na1 ad1), s1) \<Longrightarrow> ad1 = ad \<or> ad1 = False"
  by (auto simp: ad_call_select_def jbind_def ret_def throw_def scoped_set_mask_def
      split: if_splits prod.splits sum.splits)

lemma strategy_ad_flag:
  "ad_call_strategy e backend domain n is_getter index msk args rv func ad s =
     (Inr (Dispatched rv1 rv_ad imp na ad1), s1) \<Longrightarrow> ad1 = ad \<or> ad1 = False"
  unfolding ad_call_strategy_def
  by (auto simp: jbind_def throw_def split: if_splits prod.splits sum.splits dest: select_ad_flag)

lemma ad_call_try_no_callop:
  "CallOpCreated \<notin> set (snd (fst (ad_call_try e backend domain n is_getter index msk args rv
                                      func cleanup False s)))"
proof (cases "ad_call_strategy e backend domain n is_getter index msk args rv func False s")
  case (Pair r s1)
  show ?thesis
  proof (cases r)
    case (Inl err)
    with Pair show ?thesis by (simp add: ad_call_try_def)
  next
    case (Inr res)
    show ?thesis
    proof (cases res)
      case (Degenerate rv1)
      with Pair Inr show ?thesis by (simp add: ad_call_try_def)
    next
      case (Dispatched rv1 rv_ad imp na ad1)
      with Pair Inr have "ad1 = False" using strategy_ad_flag by blast
      with Pair Inr Dispatched show ?thesis by (simp add: ad_call_try_def)
    qed
  qed
qed

lemma ad_call_no_callop:
  "CallOpCreated \<notin> set (snd (fst (ad_call e backend domain n is_getter index msk args rv func
                                      cleanup False s)))"
  using ad_call_try_no_callop [of e backend domain n is_getter index msk args rv func cleanup s]
  by (auto simp: ad_call_def split: prod.splits sum.splits)

theorem reentrant_dispatch_creates_no_callop:
  "CallOpCreated \<notin> set (snd (fst (ad_call e backend domain n is_getter index msk args rv func
                                      cleanup False s)))
   \<and> CallOpCreated \<notin> set (snd (fst (forward e op s)))
   \<and> CallOpCreated \<notin> set (snd (fst (backward e op s)))"
proof (intro conjI)
  show "CallOpCreated \<notin> set (snd (fst (ad_call e backend domain n is_getter index msk args rv
                                            func cleanup False s)))"
    by (rule ad_call_no_callop)
  show "CallOpCreated \<notin> set (snd (fst (forward e op s)))"
  proof (cases "pass_args e op (m_input_indices op) (length (m_input_offsets op)) s")
    case (Pair r s1)
    show ?thesis
    proof (cases r)
      case (Inl err)
      with Pair show ?thesis by (simp add: forward_def)
    next
      case (Inr args')
      with Pair show ?thesis
        using ad_call_no_callop [of e "m_backend op" "m_domain op" "m_callable_count op" False
                                    "m_index op" "m_mask op" args' "[]" "forward_cb e op" False s1]
        by (auto simp: forward_def split: prod.splits sum.splits if_splits)
    qed
  qed
  show "CallOpCreated \<notin> set (snd (fst (backward e op s)))"
  proof (cases "pass_args e op (m_output_indices op) (length (m_output_offsets op)) s")
    case (Pair r s1)
    show ?thesis
    proof (cases r)
      case (Inl err)
      with Pair show ?thesis by (simp add: backward_def)
    next
      case (Inr args')
      with Pair show ?thesis
        using ad_call_no_callop [of e "m_backend op" "m_domain op" "m_callable_count op" False
                                    "m_index op" "m_mask op" args' "[]" "backward_cb e op" False s1]
        by (auto simp: backward_def split: prod.splits sum.splits if_splits)
    qed
  qed
qed

theorem reentrant_dispatch_creates_no_callop_witness:
  "CallOpCreated \<notin> set (snd (fst (forward example_env (CallOp_new LLVM None 1 2 2 [3] echo True)
                                      (example_state\<lparr>flag_vcall_record := True\<rparr>))))
   \<and> CallOpCreated \<notin> set (snd (fst (backward example_env
                                         (CallOp_new LLVM None 1 2 2 [3] echo True)
                                         (example_state\<lparr>flag_vcall_record := True\<rparr>))))"
  using reentrant_dispatch_creates_no_callop
          [of example_env LLVM None 2 False 1 2 "[3]" "[]" echo False
              "example_state\<lparr>flag_vcall_record := True\<rparr>"
              "CallOp_new LLVM None 1 2 2 [3] echo True"]
  by blast

text \<open>
  Claim C1 fails on the code. An argument is tracked, the recording strategy runs both
  callables, a \<open>CallOp\<close> that holds the payload is constructed, and then \<open>ad_custom_op\<close>
  throws: the destructor of the \<open>CallOp\<close> calls the cleanup function while the block is
  left, and the handler calls it again. The cleanup function runs twice.
\<close>

theorem ad_call_cleanup_twice:
  "fst (ad_call (example_env\<lparr>env_custom_op := Inl BackendError\<rparr>) LLVM None 2 False 1 2
          [combine 1 3] [] echo True True (example_state\<lparr>flag_vcall_record := True\<rparr>))
     = (Inl BackendError, [CallOpCreated, CleanupCalled, CleanupCalled])"
  by (simp add: dispatch_defs model_defs Let_def upt_conv_Cons)

text \<open>
  Claim C5 fails on the code. The only lanes belong to callable 2, so the bucket array
  holds one bucket with id 2 at position 0. The callback is invoked with the instance
  pointer of callable 2 (index 1), but the value set as self is the position plus one,
  that is 1, together with the gathered instance-id variable (handle 8).
\<close>

theorem reduce_self_is_bucket_position:
  "trace (snd (ad_call_reduce (example_env\<lparr>env_call_buckets := [(2, 2)]\<rparr>) LLVM None 4 1 0 2
                 [3] [] echo example_state))
     = [SetSelf 1 8, Invoke 1 [7], SetSelf 0 0]"
  by (simp add: dispatch_defs model_defs Let_def enumerate_eq_zip)

section \<open>Handles of the variable table\<close>

lemma unat_handle: "Suc n < 2 ^ 32 \<Longrightarrow> unat (of_nat (Suc n) :: u32) = Suc n"
  by (simp only: unat_of_nat) simp

lemma jit_var_append:
  assumes "jit_var s h = Some x" and "vars s' = vars s @ ys"
  shows "jit_var s' h = Some x"
proof -
  from assms(1) have "h \<noteq> 0" and le: "unat h \<le> length (vars s)" and x: "x = vars s ! (unat h - 1)"
    by (auto simp: jit_var_def split: if_splits)
  from \<open>h \<noteq> 0\<close> have "unat h \<noteq> 0" by (simp add: unat_0_iff)
  with le have "unat h - 1 < length (vars s)" by arith
  with \<open>h \<noteq> 0\<close> le x show ?thesis
    by (simp add: jit_var_def assms(2) nth_append)
qed

lemma jit_var_new_ok:
  assumes "jit_var_new v s = (Inr h, s')"
  shows "h \<noteq> 0" and "jit_var s' h = Some v" and "vars s' = vars s @ [v]"
proof -
  from assms have room: "Suc (length (vars s)) < 2 ^ 32"
    and h: "h = of_nat (Suc (length (vars s)))" and s': "s' = s\<lparr>vars := vars s @ [v]\<rparr>"
    by (auto simp: jit_var_new_def split: if_splits)
  have u: "unat h = Suc (length (vars s))" unfolding h using room by (rule unat_handle)
  show "h \<noteq> 0" using u by (metis Zero_not_Suc unat_0) 
  show "jit_var s' h = Some v" using u \<open>h \<noteq> 0\<close> by (simp add: jit_var_def s')
  show "vars s' = vars s @ [v]" by (simp add: s')
qed

lemma ir_part_ucast [simp]: "ir_part (ucast (h :: u32)) = h"
  unfolding ir_part_def
  apply (rule bit_word_eqI)
  apply (simp add: bit_simps)
  done

lemma jit_var_lookup_cases:
  "jit_var_lookup h s = (r, s') \<Longrightarrow> s' = s \<and> (case r of Inl e \<Rightarrow> e = BackendError \<and> jit_var s h = None | Inr v \<Rightarrow> jit_var s h = Some v)"
  by (auto simp: jit_var_lookup_def split: option.splits)

lemma jit_var_type_Inr:
  "jit_var_type h s = (Inr t, s') \<Longrightarrow> s' = s \<and> (\<exists>v. jit_var s h = Some v \<and> v_type v = t)"
  by (auto simp: jit_var_type_def jbind_def ret_def jit_var_lookup_def split: option.splits)

lemma jit_var_literal_Inr:
  "jit_var_literal b t x n s = (Inr h, s') \<Longrightarrow>
    h \<noteq> 0 \<and> jit_var s' h = Some \<lparr>v_type = t, v_backend = b, v_size = n, v_state = Literal, v_def = DLiteral x\<rparr>
    \<and> vars s' = vars s @ [\<lparr>v_type = t, v_backend = b, v_size = n, v_state = Literal, v_def = DLiteral x\<rparr>]"
  unfolding jit_var_literal_def using jit_var_new_ok by blast

lemma check_rv_first_ok:
  "check_rv_first backend sz rv2 s = (Inr rv', s') \<Longrightarrow>
     length rv' = length rv2 \<and> (\<exists>ys. vars s' = vars s @ ys) \<and>
     (\<forall>j<length rv2. rv2 ! j \<noteq> 0 \<and>
        (\<exists>v v2. jit_var s' (ir_part (rv' ! j)) = Some v \<and> jit_var s' (ir_part (rv2 ! j)) = Some v2
               \<and> v_type v = v_type v2 \<and> v_backend v = backend \<and> v_size v = sz
               \<and> v_state v = Literal \<and> v_def v = DLiteral 0))"
proof (induction rv2 arbitrary: s rv' s')
  case Nil
  then show ?case by (simp add: ret_def)
next
  case (Cons x xs)
  from Cons.prems have x0: "x \<noteq> 0" by (auto simp: throw_def split: if_splits)
  with Cons.prems obtain ty s1 where ty: "jit_var_type (ir_part x) s = (Inr ty, s1)"
    by (auto simp: jbind_def split: prod.splits sum.splits)
  then have s1: "s1 = s" and "\<exists>v. jit_var s (ir_part x) = Some v \<and> v_type v = ty"
    using jit_var_type_Inr by blast+
  then obtain vx where vx: "jit_var s (ir_part x) = Some vx" "v_type vx = ty" by blast
  from Cons.prems x0 ty s1 obtain l s2 where l: "jit_var_literal backend ty 0 sz s = (Inr l, s2)"
    by (auto simp: jbind_def split: prod.splits sum.splits)
  let ?lit = "\<lparr>v_type = ty, v_backend = backend, v_size = sz, v_state = Literal, v_def = DLiteral 0\<rparr>"
  from l have l0: "l \<noteq> 0" and lv: "jit_var s2 l = Some ?lit" and s2: "vars s2 = vars s @ [?lit]"
    using jit_var_literal_Inr by blast+
  from Cons.prems x0 ty s1 l obtain ls where ls: "check_rv_first backend sz xs s2 = (Inr ls, s')"
    and rv': "rv' = ucast l # ls"
    by (auto simp: jbind_def ret_def split: prod.splits sum.splits)
  from Cons.IH[OF ls] obtain ys where len: "length ls = length xs" and ys: "vars s' = vars s2 @ ys"
    and rest: "\<forall>j<length xs. xs ! j \<noteq> 0 \<and>
        (\<exists>v v2. jit_var s' (ir_part (ls ! j)) = Some v \<and> jit_var s' (ir_part (xs ! j)) = Some v2
               \<and> v_type v = v_type v2 \<and> v_backend v = backend \<and> v_size v = sz
               \<and> v_state v = Literal \<and> v_def v = DLiteral 0)"
    by blast
  have ext: "vars s' = vars s @ (?lit # ys)" using s2 ys by simp
  have head: "jit_var s' l = Some ?lit" using jit_var_append[OF lv ys] .
  have headx: "jit_var s' (ir_part x) = Some vx" using jit_var_append[OF vx(1) ext] .
  show ?case
  proof (intro conjI allI impI)
    show "length rv' = length (x # xs)" using rv' len by simp
    show "\<exists>ys. vars s' = vars s @ ys" using ext by blast
  next
    fix j assume "j < length (x # xs)"
    then show "(x # xs) ! j \<noteq> 0" using x0 rest by (cases j) auto
  next
    fix j assume j: "j < length (x # xs)"
    show "\<exists>v v2. jit_var s' (ir_part (rv' ! j)) = Some v \<and> jit_var s' (ir_part ((x # xs) ! j)) = Some v2
               \<and> v_type v = v_type v2 \<and> v_backend v = backend \<and> v_size v = sz
               \<and> v_state v = Literal \<and> v_def v = DLiteral 0"
    proof (cases j)
      case 0
      then show ?thesis using head headx vx rv' by simp
    next
      case (Suc k)
      then show ?thesis using rest j rv' by simp
    qed
  qed
qed

lemma check_rv_rest_state: "check_rv_rest backend ps s = (r, s') \<Longrightarrow> s' = s"
proof (induction ps)
  case Nil
  then show ?case by (simp add: ret_def)
next
  case (Cons p ps)
  obtain i1 i2 where p: "p = (i1, i2)" by (cases p)
  from Cons show ?case unfolding p
    by (auto simp: jbind_def throw_def jit_set_backend_def jit_var_lookup_def
        split: if_splits prod.splits sum.splits option.splits)
qed

lemma check_rv_rest_skip:
  "agrees s backend i1 i2 \<Longrightarrow> check_rv_rest backend ((i1, i2) # ps) s = check_rv_rest backend ps s"
  by (auto simp: agrees_def jbind_def jit_set_backend_def jit_var_lookup_def split: option.splits)

lemma check_rv_rest_bad:
  "\<not> agrees s backend i1 i2 \<Longrightarrow> jit_var s (ir_part i1) = Some v1 \<Longrightarrow>
   i2 = 0 \<or> jit_var s (ir_part i2) = Some v2 \<Longrightarrow>
   check_rv_rest backend ((i1, i2) # ps) s =
     (Inl (if i2 = 0 then EmptyReturn else if v_backend v2 \<noteq> backend then ReturnBackendMismatch
           else ReturnTypeMismatch), s)"
  by (auto simp: agrees_def jbind_def throw_def jit_set_backend_def jit_var_lookup_def split: option.splits)

lemma check_rv_rest_drop:
  "\<forall>k<j. agrees s backend (fst (ps ! k)) (snd (ps ! k)) \<Longrightarrow> j \<le> length ps \<Longrightarrow>
   check_rv_rest backend ps s = check_rv_rest backend (drop j ps) s"
proof (induction j arbitrary: ps)
  case 0
  then show ?case by simp
next
  case (Suc j)
  then obtain p ps' where ps: "ps = p # ps'" by (cases ps) auto
  obtain i1 i2 where p: "p = (i1, i2)" by (cases p)
  from Suc.prems have a0: "agrees s backend i1 i2" unfolding ps p by fastforce
  from Suc.prems have "\<forall>k<j. agrees s backend (fst (ps' ! k)) (snd (ps' ! k))" unfolding ps by fastforce
  moreover from Suc.prems have "j \<le> length ps'" unfolding ps by simp
  ultimately have "check_rv_rest backend ps' s = check_rv_rest backend (drop j ps') s"
    by (rule Suc.IH)
  then show ?case unfolding ps p using check_rv_rest_skip[OF a0] by simp
qed

lemma check_rv_rest_ok:
  "check_rv_rest backend ps s = (Inr u, s') \<Longrightarrow> \<forall>k<length ps. agrees s backend (fst (ps ! k)) (snd (ps ! k))"
proof (induction ps)
  case Nil
  then show ?case by simp
next
  case (Cons p ps)
  obtain i1 i2 where p: "p = (i1, i2)" by (cases p)
  from Cons.prems have a: "agrees s backend i1 i2" and r: "check_rv_rest backend ps s = (Inr u, s')"
    unfolding p
    by (auto simp: agrees_def jbind_def throw_def jit_set_backend_def jit_var_lookup_def
        split: if_splits prod.splits sum.splits option.splits)
  from Cons.IH[OF r] a show ?case unfolding p by (auto simp: less_Suc_eq_0_disj)
qed

lemma check_rv_first_zero:
  "j < length rv2 \<Longrightarrow> rv2 ! j = 0 \<Longrightarrow> \<forall>k<j. rv2 ! k \<noteq> 0 \<and> jit_var s (ir_part (rv2 ! k)) \<noteq> None \<Longrightarrow>
   length (vars s) + j < 2 ^ 32 - 1 \<Longrightarrow> fst (check_rv_first backend sz rv2 s) = Inl EmptyReturn"
proof (induction rv2 arbitrary: j s)
  case Nil
  then show ?case by simp
next
  case (Cons x xs)
  show ?case
  proof (cases j)
    case 0
    with Cons.prems show ?thesis by (simp add: throw_def)
  next
    case (Suc k)
    from Cons.prems Suc have x0: "x \<noteq> 0" and "jit_var s (ir_part x) \<noteq> None" by fastforce+
    then obtain vx where vx: "jit_var s (ir_part x) = Some vx" by blast
    let ?lit = "\<lparr>v_type = v_type vx, v_backend = backend, v_size = sz, v_state = Literal, v_def = DLiteral 0\<rparr>"
    let ?s1 = "s\<lparr>vars := vars s @ [?lit]\<rparr>"
    from Cons.prems Suc have room: "Suc (length (vars s)) < 2 ^ 32" by simp
    have ext: "vars ?s1 = vars s @ [?lit]" by simp
    have "fst (check_rv_first backend sz xs ?s1) = Inl EmptyReturn"
    proof (rule Cons.IH)
      show "k < length xs" using Cons.prems Suc by simp
      show "xs ! k = 0" using Cons.prems Suc by simp
      show "\<forall>i<k. xs ! i \<noteq> 0 \<and> jit_var ?s1 (ir_part (xs ! i)) \<noteq> None"
      proof (intro allI impI)
        fix i assume "i < k"
        then have "Suc i < j" using Suc by simp
        with Cons.prems(3) have "(x # xs) ! Suc i \<noteq> 0 \<and> jit_var s (ir_part ((x # xs) ! Suc i)) \<noteq> None"
          by blast
        then show "xs ! i \<noteq> 0 \<and> jit_var ?s1 (ir_part (xs ! i)) \<noteq> None"
          using jit_var_append[OF _ ext] by fastforce
      qed
      show "length (vars ?s1) + k < 2 ^ 32 - 1" using Cons.prems Suc by simp
    qed
    then obtain s2 where "check_rv_first backend sz xs ?s1 = (Inl EmptyReturn, s2)"
      by (cases "check_rv_first backend sz xs ?s1") auto
    then show ?thesis using x0 vx room
      by (simp add: jbind_def ret_def jit_var_type_def jit_var_lookup_def jit_var_literal_def
          jit_var_new_def)
  qed
qed

section \<open>Theorems about ad\_call\_check\_rv\<close>



section \<open>Successful runs keep the handles non-zero\<close>

lemma combine_disjoint: "combine a i = push_bit 32 (ucast a) OR ucast i"
  unfolding combine_def
  by (rule disjunctive_add) (auto simp: bit_simps dest: bit_imp_le_length)

lemma ir_part_combine [simp]: "ir_part (combine a i) = i"
  unfolding ir_part_def combine_disjoint
  apply (rule bit_word_eqI)
  apply (auto simp add: bit_simps)
  done

lemma ir_part_detach [simp]: "ir_part (detach h) = ir_part h"
  unfolding ir_part_def detach_def Let_def
  apply (auto)
  apply (rule bit_word_eqI)
  apply (auto simp add: bit_simps)
  done

lemma ir_part_0 [simp]: "ir_part 0 = 0"
  by (simp add: ir_part_def)

text \<open>Successful runs\<close>

lemma jbind_Inr:
  "jbind m f s = (Inr y, s') \<longleftrightarrow> (\<exists>x s1. m s = (Inr x, s1) \<and> f x s1 = (Inr y, s'))"
  by (auto simp: jbind_def split: prod.splits sum.splits)

lemma ret_Inr: "ret x s = (Inr y, s') \<longleftrightarrow> y = x \<and> s' = s"
  by (auto simp: ret_def)

lemma throw_Inr: "throw e s = (Inr y, s') \<longleftrightarrow> False"
  by (auto simp: throw_def)

lemma vec_get_Inr: "vec_get xs i s = (Inr y, s') \<longleftrightarrow> i < length xs \<and> y = xs ! i \<and> s' = s"
  by (auto simp: vec_get_def ret_def throw_def)

lemma vec_set_Inr: "vec_set xs i v s = (Inr ys, s') \<longleftrightarrow> i < length xs \<and> ys = xs[i := v] \<and> s' = s"
  by (auto simp: vec_set_def ret_def throw_def)

lemma scoped_set_mask_InrD:
  "scoped_set_mask i body s = (Inr y, s') \<Longrightarrow> \<exists>s1 s2. body s1 = (Inr y, s2)"
  by (auto simp: scoped_set_mask_def split: prod.splits)

lemma scoped_set_self_InrD:
  "scoped_set_self v i body s = (Inr y, s') \<Longrightarrow> \<exists>s1 s2. body s1 = (Inr y, s2)"
  by (auto simp: scoped_set_self_def jbind_def jit_var_set_self_def Let_def split: prod.splits)

lemma scoped_record_InrD:
  "scoped_record body s = (Inr y, s') \<Longrightarrow> \<exists>rec c s1 s2. body rec s1 = (Inr (y, c), s2)"
  by (auto simp: scoped_record_def Let_def split: prod.splits sum.splits)

lemma invoke_InrD:
  "invoke func ptr args rv s = (Inr r, s') \<Longrightarrow> \<exists>s2. func ptr args rv s = (Inr r, s2)"
  by (auto simp: invoke_def split: prod.splits)

lemmas run_simps = jbind_Inr ret_Inr throw_Inr vec_get_Inr vec_set_Inr

text \<open>Fresh handles\<close>

lemma jit_var_literal_nz: "jit_var_literal b t x n s = (Inr h, s') \<Longrightarrow> h \<noteq> 0"
  unfolding jit_var_literal_def using jit_var_new_ok(1) by blast

lemma jit_var_opaque_nz: "jit_var_opaque t b n st s = (Inr h, s') \<Longrightarrow> h \<noteq> 0"
  unfolding jit_var_opaque_def using jit_var_new_ok(1) by blast

lemma jit_var_gather_nz: "jit_var_gather a b c s = (Inr h, s') \<Longrightarrow> h \<noteq> 0"
  unfolding jit_var_gather_def by (auto simp: run_simps dest: jit_var_new_ok(1))

lemma ad_var_new_ir: "ad_var_new i s = (Inr h, s') \<Longrightarrow> ir_part h = i"
  unfolding ad_var_new_def by (auto simp: run_simps)

lemma ad_var_scatter_nz: "ad_var_scatter t v off m s = (Inr h, s') \<Longrightarrow> ir_part h \<noteq> 0"
  unfolding ad_var_scatter_def
  by (auto simp: run_simps dest!: jit_var_opaque_nz ad_var_new_ir split: if_splits)

lemma nonzero_ir_Nil [simp]: "nonzero_ir []"
  by (simp add: nonzero_ir_def)

lemma nonzero_ir_Cons [simp]: "nonzero_ir (x # xs) \<longleftrightarrow> ir_part x \<noteq> 0 \<and> nonzero_ir xs"
  by (simp add: nonzero_ir_def)

lemma nonzero_ir_update: "nonzero_ir rv \<Longrightarrow> ir_part h \<noteq> 0 \<Longrightarrow> nonzero_ir (rv[i := h])"
  unfolding nonzero_ir_def by (metis insertE set_update_subset_insert subsetD)

lemma zero_literals_nz:
  "zero_literals b n xs s = (Inr ys, s') \<Longrightarrow> nonzero_ir xs \<Longrightarrow> nonzero_ir ys"
proof (induction xs arbitrary: s ys s')
  case Nil
  then show ?case by (auto simp: run_simps)
next
  case (Cons x xs)
  from Cons.prems(2) have x: "ir_part x \<noteq> 0" and xs: "nonzero_ir xs" by auto
  then have x0: "x \<noteq> 0" by auto
  from Cons.prems(1) obtain x' s1 ys' where
    h: "jbind (jit_var_type (ir_part x)) (\<lambda>ty. jbind (jit_var_literal b ty 0 n) (\<lambda>l. ret (ucast l))) s
          = (Inr x', s1)"
    and z: "zero_literals b n xs s1 = (Inr ys', s')" and ys: "ys = x' # ys'"
    using x0 by (auto simp: jbind_Inr ret_Inr)
  from h obtain t s0 l where "jit_var_literal b t 0 n s0 = (Inr l, s1)" and x': "x' = ucast l"
    by (auto simp: run_simps)
  then have "ir_part x' \<noteq> 0" using jit_var_literal_nz by auto
  with Cons.IH[OF z xs] ys show ?case by simp
qed

lemma check_rv_first_nz: "check_rv_first b n xs s = (Inr ys, s') \<Longrightarrow> nonzero_ir ys"
proof (induction xs arbitrary: s ys s')
  case Nil
  then show ?case by (auto simp: run_simps)
next
  case (Cons x xs)
  from Cons.prems have x0: "x \<noteq> 0" by (auto simp: throw_Inr split: if_splits)
  with Cons.prems obtain t s0 l s1 r where l: "jit_var_literal b t 0 n s0 = (Inr l, s1)"
    and r: "check_rv_first b n xs s1 = (Inr r, s')" and ys: "ys = ucast l # r"
    by (auto simp: run_simps)
  from l have "l \<noteq> 0" by (rule jit_var_literal_nz)
  with Cons.IH[OF r] ys show ?case by simp
qed

lemma check_rv_nz:
  "ad_call_check_rv b n i rv rv2 s = (Inr rv', s') \<Longrightarrow> nonzero_ir rv \<Longrightarrow> nonzero_ir rv'"
  unfolding ad_call_check_rv_def
  by (auto simp: run_simps dest: check_rv_first_nz split: if_splits)

lemma invoke_nz:
  "invoke func ptr args rv s = (Inr r, s') \<Longrightarrow> returns_nonzero func \<Longrightarrow> nonzero_ir rv \<Longrightarrow> nonzero_ir r"
  unfolding returns_nonzero_def by (drule invoke_InrD) blast

text \<open>Getter\<close>

lemma getter_move_rv3:
  "getter_move xs j rv_ad rv3 s = (Inr (rv_ad', rv3'), s') \<Longrightarrow> rv3' = rv3 @ map ir_part xs"
proof (induction xs arbitrary: j rv_ad rv3 s)
  case Nil
  then show ?case by (auto simp: run_simps)
next
  case (Cons x xs)
  from Cons.prems obtain ra s1 where "getter_move xs (Suc j) ra (rv3 @ [ir_part x]) s1 = (Inr (rv_ad', rv3'), s')"
    by (auto simp: run_simps split: if_splits)
  from Cons.IH[OF this] show ?case by simp
qed

lemma getter_loop_nz:
  "getter_loop e b d n func cs (rv2, rv, rv_ad, rv3) s = (Inr (rv2', rv', rv_ad', rv3'), s') \<Longrightarrow>
   returns_nonzero func \<Longrightarrow> nonzero_ir rv \<Longrightarrow> 0 \<notin> set rv3 \<Longrightarrow>
   nonzero_ir rv' \<and> 0 \<notin> set rv3'"
proof (induction cs arbitrary: rv2 rv rv_ad rv3 s)
  case Nil
  then show ?case by (auto simp: run_simps)
next
  case (Cons c cs)
  show ?case
  proof (cases "callable_ptr e d c")
    case None
    with Cons.prems(1) have "getter_loop e b d n func cs ([], rv, rv_ad, rv3) s = (Inr (rv2', rv', rv_ad', rv3'), s')"
      by simp
    from Cons.IH[OF this Cons.prems(2-4)] show ?thesis .
  next
    case (Some ptr)
    with Cons.prems(1) obtain r sa sb sc sd se rv1 ra r3 where
      f: "scoped_record (\<lambda>rec. jbind (invoke func ptr [] []) (\<lambda>r. ret (r, True))) sa = (Inr r, sb)"
      and c: "ad_call_check_rv b n c rv r sb = (Inr rv1, sc)"
      and m: "getter_move r 0 (if rv_ad = [] then replicate (length r) False else rv_ad) rv3 sc = (Inr (ra, r3), sd)"
      and l: "getter_loop e b d n func cs (r, rv1, ra, r3) sd = (Inr (rv2', rv', rv_ad', rv3'), s')"
      by (auto simp: run_simps)
    from f obtain s1 s2 where "invoke func ptr [] [] s1 = (Inr r, s2)"
      by (auto dest!: scoped_record_InrD simp: run_simps)
    then have r: "nonzero_ir r" using Cons.prems(2) by (rule invoke_nz) simp
    from c Cons.prems(3) have rv1: "nonzero_ir rv1" by (rule check_rv_nz)
    from getter_move_rv3[OF m] have "r3 = rv3 @ map ir_part r" .
    with r Cons.prems(4) have r3: "0 \<notin> set r3" by (auto simp: nonzero_ir_def)
    from Cons.IH[OF l Cons.prems(2) rv1 r3] show ?thesis .
  qed
qed

lemma getter_slot_nz:
  assumes "getter_slot b idx m n rv2 rv3 i s = (Inr h, s')" and "0 \<notin> set rv3"
  shows "ir_part h \<noteq> 0"
proof -
  from assms(1) obtain lit s1 where
    rest: "(if lit then jbind (vec_get rv3 i) (\<lambda>h. ret (ucast h))
        else
        jbind (vec_get rv2 i) (\<lambda>h2.
        jbind (jit_var_type (ir_part h2)) (\<lambda>ty.
        jbind (jit_malloc (jit_type_size ty * (n + 1))) (\<lambda>ptr.
        jbind (jit_var_mem_map b ty ptr (n + 1)) (\<lambda>buf.
        jbind (jit_malloc (16 * n)) (\<lambda>agg_ptr.
        jbind (getter_entries rv3 i (length rv2) (jit_type_size ty) [0..<n]) (\<lambda>agg.
        jbind (jit_aggregate ptr agg) (\<lambda>_.
        jbind (jit_var_gather buf idx m) (\<lambda>r. ret (ucast r)))))))))) s1 = (Inr h, s')"
    unfolding getter_slot_def by (auto simp: jbind_Inr)
  show ?thesis
  proof (cases lit)
    case True
    with rest have "i < length rv3" and "h = ucast (rv3 ! i)" by (auto simp: run_simps)
    with assms(2) show ?thesis by (metis ir_part_ucast nth_mem)
  next
    case False
    with rest obtain buf sa r where "jit_var_gather buf idx m sa = (Inr r, s')" and "h = ucast r"
      by (auto simp: run_simps)
    then show ?thesis using jit_var_gather_nz by auto
  qed
qed

lemma getter_assemble_nz:
  "getter_assemble b idx m n rv2 rv3 slots rv s = (Inr rv', s') \<Longrightarrow> 0 \<notin> set rv3 \<Longrightarrow>
   nonzero_ir rv \<Longrightarrow> nonzero_ir rv'"
proof (induction slots arbitrary: rv s)
  case Nil
  then show ?case by (auto simp: run_simps)
next
  case (Cons i slots)
  from Cons.prems(1) obtain h s1 s2 s3 where h: "getter_slot b idx m n rv2 rv3 i s1 = (Inr h, s2)"
    and r: "getter_assemble b idx m n rv2 rv3 slots (rv[i := h]) s3 = (Inr rv', s')"
    by (auto simp: run_simps)
  from getter_slot_nz[OF h Cons.prems(2)] have "ir_part h \<noteq> 0" .
  with Cons.prems(3) have "nonzero_ir (rv[i := h])" by (rule nonzero_ir_update)
  from Cons.IH[OF r Cons.prems(2) this] show ?case .
qed

lemma ad_call_getter_nz:
  "ad_call_getter e b d n idx m0 cc args rv rv_ad func s = (Inr (rv', rv_ad'), s') \<Longrightarrow>
   returns_nonzero func \<Longrightarrow> nonzero_ir rv \<Longrightarrow> nonzero_ir rv'"
  unfolding ad_call_getter_def
  by (auto simp: run_simps dest!: getter_loop_nz getter_assemble_nz)

text \<open>Record\<close>

lemma jit_var_call_outputs_nz:
  "jit_var_call_outputs b n hs s = (Inr outs, s') \<Longrightarrow> 0 \<notin> set outs"
proof (induction hs arbitrary: s outs)
  case Nil
  then show ?case by (auto simp: run_simps)
next
  case (Cons h hs)
  from Cons.prems obtain t s0 out s1 r where o: "jit_var_opaque t b n Unevaluated s0 = (Inr out, s1)"
    and r: "jit_var_call_outputs b n hs s1 = (Inr r, s')" and outs: "outs = out # r"
    by (auto simp: run_simps)
  from o have "out \<noteq> 0" by (rule jit_var_opaque_nz)
  with Cons.IH[OF r] outs show ?case by auto
qed

lemma nonzero_ir_map_ucast: "0 \<notin> set (hs :: u32 list) \<Longrightarrow> nonzero_ir (map ucast hs)"
  by (induction hs) auto

lemma ad_call_record_nz:
  assumes "ad_call_record e b d n idx m0 cc args rv rv_ad func s = (Inr (rv', rv_ad'), s')"
  shows "nonzero_ir rv'"
proof -
  from assms obtain msk s0 rec c s1 s2 where
    body: "jbind (record_wrap_args args) (\<lambda>(args3, args2).
      jbind (jit_var_call_mask b) (\<lambda>call_mask.
      jbind (scoped_set_mask call_mask
               (jbind (record_loop e b d n func rec args2 [0..<cc]
                         (replicate (cc + 1) 0, replicate cc 0, 0, rv, rv_ad, []))
                  (\<lambda>(checkpoints, inst_id, callable_count_final, rv1, rv_ad1, rv3).
                jbind (checkpoint_and_rewind rec) (\<lambda>c.
                jbind (vec_set checkpoints cc c) (\<lambda>checkpoints'.
                  ret (checkpoints', inst_id, callable_count_final, rv1, rv_ad1, rv3))))))
        (\<lambda>(checkpoints, inst_id, callable_count_final, rv1, rv_ad1, rv3).
      jbind (jit_var_call b n idx msk callable_count_final inst_id args3 rv3
               checkpoints rv1) (\<lambda>rv4.
        ret ((map ucast rv4, rv_ad1), False))))) s1 = (Inr ((rv', rv_ad'), c), s2)"
    unfolding ad_call_record_def by (auto simp: jbind_Inr dest!: scoped_record_InrD)
  then obtain hs sa rv4 sb where "jit_var_call_outputs b n hs sa = (Inr rv4, sb)" and "rv' = map ucast rv4"
    by (auto simp: run_simps jit_var_call_def split: prod.splits)
  then show ?thesis using jit_var_call_outputs_nz nonzero_ir_map_ucast by blast
qed

text \<open>Reduce\<close>

lemma reduce_merge_nz:
  "reduce_merge rv rv2 i2 m s = (Inr rv', s') \<Longrightarrow> nonzero_ir rv \<Longrightarrow> nonzero_ir rv'"
proof (induction rv rv2 i2 m arbitrary: s rv' rule: reduce_merge.induct)
  case (1 rv index2 memop_mask)
  then show ?case by (auto simp: run_simps)
next
  case (2 v vs index2 memop_mask)
  then show ?case by (auto simp: run_simps)
next
  case (3 r rs v vs index2 memop_mask)
  from "3.prems"(1) obtain x s1 xs where x: "ad_var_scatter r v index2 memop_mask s = (Inr x, s1)"
    and xs: "reduce_merge rs vs index2 memop_mask s1 = (Inr xs, s')" and rv': "rv' = x # xs"
    by (auto simp: run_simps)
  from "3.prems"(2) have "nonzero_ir rs" by simp
  from "3.IH"[OF xs this] ad_var_scatter_nz[OF x] rv' show ?case by simp
qed

lemma reduce_loop_nz:
  "reduce_loop e b d n func args idx mm bs (rv, ls) s = (Inr (rv', ls'), s') \<Longrightarrow>
   nonzero_ir rv \<Longrightarrow> nonzero_ir rv'"
proof (induction bs arbitrary: rv ls s)
  case Nil
  then show ?case by (auto simp: run_simps)
next
  case (Cons p bs)
  obtain i bk where p: "p = (i, bk)" by (cases p)
  show ?case
  proof (cases "bucket_id bk = 0")
    case True
    with Cons.prems(1) have "reduce_loop e b d n func args idx mm bs (rv, ls) s = (Inr (rv', ls'), s')"
      unfolding p by simp
    from Cons.IH[OF this Cons.prems(2)] show ?thesis .
  next
    case False
    with Cons.prems(1) obtain dm sa rv1 sb w where
      sc: "scoped_set_mask dm
                 (jbind (reduce_gather_args args (bucket_index bk) mm) (\<lambda>args2.
                  jbind (case d of
                           Some dd \<Rightarrow>
                             (let p = env_registry_ptr e (bucket_id bk) in
                              if p = 0 then throw RegistryMiss else ret p)
                         | None \<Rightarrow> ret (unat (bucket_id bk - 1))) (\<lambda>ptr.
                  jbind (ad_var_gather (ucast idx) (bucket_index bk) mm False) (\<lambda>instance_id.
                    scoped_set_self (of_nat (i + 1)) (ir_part instance_id)
                      (jbind (invoke func ptr args2 []) (\<lambda>rv2.
                       jbind (ad_call_check_rv b n i rv rv2) (\<lambda>rv'.
                         reduce_merge rv' rv2 (bucket_index bk) mm))))))) sa = (Inr rv1, sb)"
      and l: "reduce_loop e b d n func args idx mm bs (rv1, w) sb = (Inr (rv', ls'), s')"
      unfolding p by (auto simp: jbind_Inr Let_def)
    from sc obtain rv2 rvc s1 s2 s3 where c: "ad_call_check_rv b n i rv rv2 s1 = (Inr rvc, s2)"
      and m: "reduce_merge rvc rv2 (bucket_index bk) mm s2 = (Inr rv1, s3)"
      by (auto simp: jbind_Inr dest!: scoped_set_mask_InrD scoped_set_self_InrD)
    from check_rv_nz[OF c Cons.prems(2)] have "nonzero_ir rvc" .
    from reduce_merge_nz[OF m this] have "nonzero_ir rv1" .
    from Cons.IH[OF l this] show ?thesis .
  qed
qed

lemma ad_call_reduce_nz:
  "ad_call_reduce e b d n idx m0 cc args rv func s = (Inr rv', s') \<Longrightarrow> nonzero_ir rv \<Longrightarrow> nonzero_ir rv'"
  unfolding ad_call_reduce_def
  by (auto simp: run_simps dest!: reduce_loop_nz)

lemma select_nz:
  assumes "ad_call_select e b d cc sz na zl is_getter idx m args rv func ad s = (Inr res, s')"
    and "returns_nonzero func" and "nonzero_ir rv"
  shows "case res of Degenerate r \<Rightarrow> nonzero_ir r | Dispatched r ra im na a \<Rightarrow> nonzero_ir r"
proof (cases "idx = 0 \<or> sz = 0 \<or> zl \<or> cc = 0")
  case True
  with assms(1) obtain sa sb rv1 sd rv2 where i: "invoke func 0 args rv sa = (Inr rv1, sb)"
    and z: "zero_literals b sz rv1 sb = (Inr rv2, sd)" and res: "res = Degenerate rv2"
    unfolding ad_call_select_def
    by (auto simp: jbind_Inr ret_Inr dest!: scoped_set_mask_InrD)
  from invoke_nz[OF i assms(2,3)] zero_literals_nz[OF z] res show ?thesis by simp
next
  case False
  note nd = this
  show ?thesis
  proof (cases is_getter)
    case True
    with assms(1) nd obtain rv1 ra sa where g: "ad_call_getter e b d sz idx m cc args rv [] func s = (Inr (rv1, ra), sa)"
      and res: "res = Dispatched rv1 ra (env_implicit_deps e) na ad"
      unfolding ad_call_select_def
      by (auto simp: jbind_Inr ret_Inr)
    from ad_call_getter_nz[OF g assms(2,3)] res show ?thesis by simp
  next
    case False
    show ?thesis
    proof (cases "flag_vcall_record s")
      case True
      with assms(1) nd \<open>\<not> is_getter\<close> obtain rv1 ra sa where g: "ad_call_record e b d sz idx m cc args rv [] func s = (Inr (rv1, ra), sa)"
        and res: "res = Dispatched rv1 ra (env_implicit_deps e) na ad"
        unfolding ad_call_select_def jit_flag_vcall_record_def
        by (auto simp: jbind_Inr ret_Inr)
      from ad_call_record_nz[OF g] res show ?thesis by simp
    next
      case False
      with assms(1) nd \<open>\<not> is_getter\<close> obtain rv1 sa where g: "ad_call_reduce e b d sz idx m cc args rv func s = (Inr rv1, sa)"
        and res: "res = Dispatched rv1 [] [] na False"
        unfolding ad_call_select_def jit_flag_vcall_record_def jit_flag_symbolic_def
        by (auto simp: jbind_Inr ret_Inr throw_Inr split: if_splits)
      from ad_call_reduce_nz[OF g assms(3)] res show ?thesis by simp
    qed
  qed
qed

lemma strategy_nz:
  assumes "ad_call_strategy e b d cc is_getter idx m args rv func ad s = (Inr res, s')"
    and "returns_nonzero func" and "nonzero_ir rv"
  shows "case res of Degenerate r \<Rightarrow> nonzero_ir r | Dispatched r ra im na a \<Rightarrow> nonzero_ir r"
proof -
  from assms(1) obtain cc' sz na zl s1 where
    "ad_call_select e b d cc' sz na zl is_getter idx m args rv func ad s1 = (Inr res, s')"
    unfolding ad_call_strategy_def
    by (auto simp: jbind_Inr throw_Inr split: if_splits prod.splits)
  from select_nz[OF this assms(2,3)] show ?thesis .
qed

lemma callop_outputs_nz:
  "callop_outputs rv_ad slots (rv, op) s = (Inr (rv', op'), s') \<Longrightarrow> nonzero_ir rv \<Longrightarrow> nonzero_ir rv'"
proof (induction slots arbitrary: rv op s)
  case Nil
  then show ?case by (auto simp: run_simps)
next
  case (Cons i slots)
  show ?case
  proof (cases "rv_ad ! i")
    case False
    with Cons.prems(1) have "callop_outputs rv_ad slots (rv, op) s = (Inr (rv', op'), s')"
      by (auto simp: run_simps)
    from Cons.IH[OF this Cons.prems(2)] show ?thesis .
  next
    case True
    with Cons.prems(1) obtain index s1 where n: "ad_var_new (ir_part (rv ! i)) s = (Inr index, s1)"
      and il: "i < length rv"
      and r: "callop_outputs rv_ad slots (rv[i := index], add_output i index op) s1 = (Inr (rv', op'), s')"
      by (auto simp: run_simps)
    from ad_var_new_ir[OF n] have "ir_part index = ir_part (rv ! i)" .
    with Cons.prems(2) il have "ir_part index \<noteq> 0" by (simp add: nonzero_ir_def)
    with Cons.prems(2) have "nonzero_ir (rv[i := index])" by (rule nonzero_ir_update)
    from Cons.IH[OF r this] show ?thesis .
  qed
qed

lemma nonzero_ir_detach: "nonzero_ir rv \<Longrightarrow> nonzero_ir (map detach rv)"
  by (simp add: nonzero_ir_def)

lemma attach_nz:
  "ad_call_attach e args rv rv_ad imp op s = (Inr (a, rv', op'), s') \<Longrightarrow> nonzero_ir rv \<Longrightarrow> nonzero_ir rv'"
  unfolding ad_call_attach_def
  by (auto simp: run_simps dest!: callop_outputs_nz)

lemma ad_call_try_nz:
  assumes "ad_call_try e b d cc is_getter idx m args rv func cleanup ad s = ((Inr (ret_flag, rv'), evs), s')"
    and "returns_nonzero func" and "nonzero_ir rv"
  shows "nonzero_ir rv'"
proof (cases "ad_call_strategy e b d cc is_getter idx m args rv func ad s")
  case (Pair r s1)
  show ?thesis
  proof (cases r)
    case (Inl err)
    with Pair assms(1) show ?thesis by (simp add: ad_call_try_def)
  next
    case (Inr res)
    from strategy_nz[OF Pair[unfolded Inr] assms(2,3)]
    have nz: "case res of Degenerate r \<Rightarrow> nonzero_ir r | Dispatched r ra im na a \<Rightarrow> nonzero_ir r" .
    show ?thesis
    proof (cases res)
      case (Degenerate rv1)
      with Pair Inr assms(1) nz show ?thesis by (simp add: ad_call_try_def)
    next
      case (Dispatched rv1 rv_ad imp na ad1)
      with nz have nz1: "nonzero_ir rv1" by simp
      show ?thesis
      proof (cases "ad1 \<and> (na \<or> True \<in> set rv_ad)")
        case False
        with Pair Inr Dispatched assms(1) nz1 show ?thesis by (auto simp: ad_call_try_def)
      next
        case True
        let ?op = "CallOp_new b d idx m (if d \<noteq> None then 0 else cc) args func cleanup"
        obtain r2 s2 where att: "ad_call_attach e args rv1 rv_ad imp ?op s1 = (r2, s2)"
          by (cases "ad_call_attach e args rv1 rv_ad imp ?op s1")
        show ?thesis
        proof (cases r2)
          case (Inl err)
          with Pair Inr Dispatched True att assms(1) show ?thesis
            by (auto simp: ad_call_try_def Let_def)
        next
          case (Inr t)
          obtain a rv2 op1 where t: "t = (a, rv2, op1)" by (cases t)
          from attach_nz[OF att[unfolded Inr t] nz1] have "nonzero_ir rv2" .
          then have "nonzero_ir (map detach rv2)" by (rule nonzero_ir_detach)
          with Pair \<open>r = Inr res\<close> Dispatched True att Inr t assms(1) \<open>nonzero_ir rv2\<close> show ?thesis
            by (cases a) (auto simp: ad_call_try_def Let_def)
        qed
      qed
    qed
  qed
qed

lemma ad_call_nz:
  assumes "ad_call e b d cc is_getter idx m args rv func cleanup ad s = ((Inr (ret_flag, rv'), evs), s')"
    and "returns_nonzero func" and "nonzero_ir rv"
  shows "nonzero_ir rv'"
proof -
  from assms(1) have "ad_call_try e b d cc is_getter idx m args rv func cleanup ad s = ((Inr (ret_flag, rv'), evs), s')"
    by (auto simp: ad_call_def split: prod.splits sum.splits)
  from ad_call_try_nz[OF this assms(2,3)] show ?thesis .
qed

lemma zero_literals_ok:
  "zero_literals backend sz xs s = (Inr ys, s') \<Longrightarrow>
     length ys = length xs \<and> (\<exists>zs. vars s' = vars s @ zs) \<and>
     (\<forall>j<length xs.
        (xs ! j = 0 \<longrightarrow> ys ! j = 0) \<and>
        (xs ! j \<noteq> 0 \<longrightarrow>
          (\<exists>v v0. jit_var s' (ir_part (ys ! j)) = Some v \<and> jit_var s' (ir_part (xs ! j)) = Some v0
                 \<and> v_type v = v_type v0 \<and> v_backend v = backend \<and> v_size v = sz
                 \<and> v_state v = Literal \<and> v_def v = DLiteral 0)))"
proof (induction xs arbitrary: s ys s')
  case Nil
  then show ?case by (simp add: ret_def)
next
  case (Cons x xs)
  from Cons.prems obtain x' s1 ys' where
    h: "(if x \<noteq> 0
           then jbind (jit_var_type (ir_part x)) (\<lambda>ty.
                jbind (jit_var_literal backend ty 0 sz) (\<lambda>l. ret (ucast l)))
           else ret x) s = (Inr x', s1)"
    and z: "zero_literals backend sz xs s1 = (Inr ys', s')" and ys: "ys = x' # ys'"
    by (auto simp: jbind_Inr ret_Inr)
  from Cons.IH[OF z] obtain zs where len: "length ys' = length xs" and zs: "vars s' = vars s1 @ zs"
    and rest: "\<forall>j<length xs.
        (xs ! j = 0 \<longrightarrow> ys' ! j = 0) \<and>
        (xs ! j \<noteq> 0 \<longrightarrow>
          (\<exists>v v0. jit_var s' (ir_part (ys' ! j)) = Some v \<and> jit_var s' (ir_part (xs ! j)) = Some v0
                 \<and> v_type v = v_type v0 \<and> v_backend v = backend \<and> v_size v = sz
                 \<and> v_state v = Literal \<and> v_def v = DLiteral 0))"
    by blast
  have head: "(x = 0 \<longrightarrow> x' = 0) \<and>
        (x \<noteq> 0 \<longrightarrow>
          (\<exists>v v0. jit_var s' (ir_part x') = Some v \<and> jit_var s' (ir_part x) = Some v0
                 \<and> v_type v = v_type v0 \<and> v_backend v = backend \<and> v_size v = sz
                 \<and> v_state v = Literal \<and> v_def v = DLiteral 0))"
    and ext: "\<exists>zs. vars s' = vars s @ zs"
  proof -
    show "(x = 0 \<longrightarrow> x' = 0) \<and>
        (x \<noteq> 0 \<longrightarrow>
          (\<exists>v v0. jit_var s' (ir_part x') = Some v \<and> jit_var s' (ir_part x) = Some v0
                 \<and> v_type v = v_type v0 \<and> v_backend v = backend \<and> v_size v = sz
                 \<and> v_state v = Literal \<and> v_def v = DLiteral 0))"
    proof (cases "x = 0")
      case True
      with h show ?thesis by (simp add: ret_Inr)
    next
      case False
      with h obtain ty sa l where ty: "jit_var_type (ir_part x) s = (Inr ty, sa)"
        and l: "jit_var_literal backend ty 0 sz sa = (Inr l, s1)" and x': "x' = ucast l"
        by (auto simp: jbind_Inr ret_Inr)
      from jit_var_type_Inr[OF ty] obtain vx where sa: "sa = s" and vx: "jit_var s (ir_part x) = Some vx" "v_type vx = ty"
        by blast
      let ?lit = "\<lparr>v_type = ty, v_backend = backend, v_size = sz, v_state = Literal, v_def = DLiteral 0\<rparr>"
      from jit_var_literal_Inr[OF l] have lv: "jit_var s1 l = Some ?lit" and s1: "vars s1 = vars s @ [?lit]"
        using sa by auto
      have "jit_var s' l = Some ?lit" using jit_var_append[OF lv zs] .
      moreover have "vars s' = vars s @ (?lit # zs)" using s1 zs by simp
      then have "jit_var s' (ir_part x) = Some vx" using jit_var_append[OF vx(1)] by blast
      ultimately show ?thesis using False x' vx by simp
    qed
    show "\<exists>zs. vars s' = vars s @ zs"
    proof (cases "x = 0")
      case True
      with h zs show ?thesis by (auto simp: ret_Inr)
    next
      case False
      with h obtain ty sa l where ty: "jit_var_type (ir_part x) s = (Inr ty, sa)"
        and l: "jit_var_literal backend ty 0 sz sa = (Inr l, s1)"
        by (auto simp: jbind_Inr ret_Inr)
      from jit_var_type_Inr[OF ty] have sa: "sa = s" by blast
      from jit_var_literal_Inr[OF l] sa zs show ?thesis by auto
    qed
  qed
  show ?case
  proof (intro conjI allI impI)
    show "length ys = length (x # xs)" using ys len by simp
    show "\<exists>zs. vars s' = vars s @ zs" by (rule ext)
  next
    fix j assume "j < length (x # xs)" and "(x # xs) ! j = 0"
    then show "ys ! j = 0" using head rest ys by (cases j) auto
  next
    fix j assume j: "j < length (x # xs)" and nz: "(x # xs) ! j \<noteq> 0"
    show "\<exists>v v0. jit_var s' (ir_part (ys ! j)) = Some v \<and> jit_var s' (ir_part ((x # xs) ! j)) = Some v0
                 \<and> v_type v = v_type v0 \<and> v_backend v = backend \<and> v_size v = sz
                 \<and> v_state v = Literal \<and> v_def v = DLiteral 0"
    proof (cases j)
      case 0
      with nz head ys show ?thesis by simp
    next
      case (Suc k)
      with j nz rest ys show ?thesis by simp
    qed
  qed
qed

section \<open>Theorems about the handles the dispatcher returns\<close>

lemma returns_nonzero_fresh_literal: "returns_nonzero fresh_literal"
  unfolding returns_nonzero_def fresh_literal_def
  by (auto simp: run_simps dest: jit_var_literal_nz)

text \<open>
  Claim C2, as stated, fails: on the degenerate path (the instance index is the zero
  handle) a callback that returns a zero handle makes \<open>ad_call\<close> return normally with
  that zero handle in \<open>rv\<close>. The loop of the degenerate path replaces a handle only
  under \<open>if (i)\<close>, and no check for an empty return value is made there.
\<close>

theorem ad_call_degenerate_keeps_zero_handle:
  "fst (ad_call example_env LLVM None 2 False 0 0 [] [] zero_handle True True example_state)
     = (Inr (True, [0]), [])
   \<and> \<not> nonzero_ir [0]"
  by (simp add: dispatch_defs model_defs Let_def zero_handle_def nonzero_ir_def)

text \<open>
  Claim C2, amended. When the callback fills \<open>rv\<close> with handles of non-zero IR part
  only, as the callable protocol demands, and \<open>rv\<close> holds only such handles on entry,
  then after every call of \<open>ad_call\<close> that returns normally every handle in \<open>rv\<close> has
  a non-zero IR part, on the degenerate path too. The loop of the degenerate path replaces
  each non-zero handle by a zero literal of the same type, of size \<open>sz\<close> and on the
  backend of the dispatch, and leaves a zero handle as it is.
\<close>

theorem ad_call_outputs_nonzero:
  "(ad_call e b d cc is_getter idx m args rv func cleanup ad s = ((Inr (ret_flag, rv'), evs), s')
      \<and> returns_nonzero func \<and> nonzero_ir rv \<longrightarrow> nonzero_ir rv')
   \<and> (zero_literals b sz xs s = (Inr ys, s'') \<longrightarrow>
        length ys = length xs \<and>
        (\<forall>j<length xs.
           (xs ! j = 0 \<longrightarrow> ys ! j = 0) \<and>
           (xs ! j \<noteq> 0 \<longrightarrow>
             (\<exists>v v0. jit_var s'' (ir_part (ys ! j)) = Some v \<and> jit_var s'' (ir_part (xs ! j)) = Some v0
                    \<and> v_type v = v_type v0 \<and> v_backend v = b \<and> v_size v = sz
                    \<and> v_state v = Literal \<and> v_def v = DLiteral 0))))"
proof (intro conjI impI)
  assume "ad_call e b d cc is_getter idx m args rv func cleanup ad s = ((Inr (ret_flag, rv'), evs), s')
      \<and> returns_nonzero func \<and> nonzero_ir rv"
  then show "nonzero_ir rv'" using ad_call_nz by blast
next
  assume "zero_literals b sz xs s = (Inr ys, s'')"
  from zero_literals_ok[OF this]
  show "length ys = length xs"
    and "\<forall>j<length xs.
           (xs ! j = 0 \<longrightarrow> ys ! j = 0) \<and>
           (xs ! j \<noteq> 0 \<longrightarrow>
             (\<exists>v v0. jit_var s'' (ir_part (ys ! j)) = Some v \<and> jit_var s'' (ir_part (xs ! j)) = Some v0
                    \<and> v_type v = v_type v0 \<and> v_backend v = b \<and> v_size v = sz
                    \<and> v_state v = Literal \<and> v_def v = DLiteral 0))"
    by blast+
qed

theorem ad_call_outputs_nonzero_witness:
  "returns_nonzero fresh_literal
   \<and> fst (ad_call example_env LLVM None 2 True 1 2 [] [] fresh_literal True True example_state)
       = (Inr (True, [11]), [])
   \<and> nonzero_ir [11]
   \<and> fst (zero_literals LLVM 4 [3, 0] example_state) = Inr [4, 0]"
  using ad_call_outputs_nonzero
          [where e = example_env and b = LLVM and d = None and cc = 2 and is_getter = True
             and idx = 1 and m = 2 and args = "[]" and rv = "[]" and func = fresh_literal
             and cleanup = True and ad = True and s = example_state and ret_flag = True
             and rv' = "[11]" and evs = "[]"
             and s' = "snd (ad_call example_env LLVM None 2 True 1 2 [] [] fresh_literal True True
                              example_state)"
             and sz = 4 and xs = "[3, 0]" and ys = "[4, 0]"
             and s'' = "snd (zero_literals LLVM 4 [3, 0] example_state)"]
        returns_nonzero_fresh_literal
  by (simp add: dispatch_defs model_defs Let_def upt_conv_Cons fresh_literal_def prod_eq_iff)

section \<open>The graph the getter strategy builds\<close>

lemma grows_refl [simp]: "grows s s"
  by (simp add: grows_def)

lemma grows_trans: "grows s s1 \<Longrightarrow> grows s1 s2 \<Longrightarrow> grows s s2"
  by (auto simp: grows_def)

lemma grows_vars: "vars s' = vars s \<Longrightarrow> grows s s'"
  by (simp add: grows_def)

lemma grows_lookup: "jit_var s h = Some v \<Longrightarrow> grows s s' \<Longrightarrow> jit_var s' h = Some v"
  unfolding grows_def using jit_var_append by blast

lemma jit_var_new_grows:
  "jit_var_new v s = (Inr h, s') \<Longrightarrow> grows s s' \<and> jit_var s' h = Some v"
  using jit_var_new_ok[of v s h s'] by (auto simp: grows_def)

lemma jit_var_lookup_Inr: "jit_var_lookup h s = (Inr v, s') \<longleftrightarrow> jit_var s h = Some v \<and> s' = s"
  by (auto simp: jit_var_lookup_def split: option.splits)

lemma jit_var_state_Inr:
  "jit_var_state h s = (Inr t, s') \<Longrightarrow> s' = s \<and> (\<exists>v. jit_var s h = Some v \<and> v_state v = t)"
  by (auto simp: jit_var_state_def run_simps jit_var_lookup_Inr)

lemma jit_var_read_literal_Inr:
  "jit_var_read_literal h s = (Inr x, s') \<Longrightarrow>
     s' = s \<and> (\<exists>v. jit_var s h = Some v \<and> v_def v = DLiteral x)"
  unfolding jit_var_read_literal_def jbind_Inr jit_var_lookup_Inr
  apply clarify
  subgoal for v s1 by (cases "v_def v") (auto simp: run_simps)
  done

lemma jit_var_size_Inr: "jit_var_size h s = (Inr n, s') \<Longrightarrow> s' = s"
  by (auto simp: jit_var_size_def run_simps jit_var_lookup_Inr split: if_splits)

lemma scoped_record_invoke_grows:
  assumes "scoped_record (\<lambda>rec. jbind (invoke func ptr args rv) (\<lambda>r. ret (r, True))) s = (Inr r, s')"
    and "extends_graph func"
  shows "grows s s'"
proof -
  let ?s2 = "s\<lparr>record_stack := length (vars s) # record_stack s, scope_count := Suc (scope_count s),
                scope := Suc (scope_count s)\<rparr>"
  from assms(1) obtain s3 where b: "invoke func ptr args rv ?s2 = (Inr r, s3)"
    and s': "s' = jit_record_end (length (vars s)) True s3"
    by (auto simp: scoped_record_def Let_def run_simps split: prod.splits sum.splits)
  from b obtain s4 where f: "func ptr args rv ?s2 = (Inr r, s4)" and s3: "s3 = s4\<lparr>trace := trace ?s2 @ [Invoke ptr args]\<rparr>"
    by (auto simp: invoke_def split: prod.splits)
  from f assms(2) have "grows ?s2 s4" unfolding extends_graph_def by blast
  then show ?thesis using s' s3 by (simp add: grows_def jit_record_end_def)
qed

lemma check_rv_grows:
  assumes "ad_call_check_rv b n c rv rv2 s = (Inr rv', s')"
  shows "grows s s'"
proof (cases "length rv \<noteq> length rv2")
  case True
  with assms have "check_rv_first b n rv2 s = (Inr rv', s')"
    by (auto simp: ad_call_check_rv_def run_simps split: if_splits)
  from check_rv_first_ok[OF this] show ?thesis by (simp add: grows_def)
next
  case False
  with assms obtain u where "check_rv_rest b (zip rv rv2) s = (Inr u, s')"
    by (auto simp: ad_call_check_rv_def run_simps)
  from check_rv_rest_state[OF this] show ?thesis by simp
qed

lemma getter_move_state:
  "getter_move xs j rv_ad rv3 s = (Inr r, s') \<Longrightarrow> s' = s"
proof (induction xs arbitrary: j rv_ad rv3 s)
  case Nil
  then show ?case by (auto simp: run_simps)
next
  case (Cons x xs)
  from Cons.prems obtain ra r3 n s1 where n: "jit_var_size (ir_part x) s = (Inr n, s1)"
    and r: "getter_move xs (Suc j) ra r3 s1 = (Inr r, s')"
    by (auto simp: run_simps split: if_splits)
  from jit_var_size_Inr[OF n] Cons.IH[OF r] show ?case by simp
qed

lemma getter_loop_grows:
  "getter_loop e b d n func cs st s = (Inr st', s') \<Longrightarrow> extends_graph func \<Longrightarrow> grows s s'"
proof (induction cs arbitrary: st s)
  case Nil
  then show ?case by (auto simp: run_simps)
next
  case (Cons c cs)
  obtain rv2 rv rv_ad rv3 where st: "st = (rv2, rv, rv_ad, rv3)" by (cases st) auto
  show ?case
  proof (cases "callable_ptr e d c")
    case None
    with Cons.prems(1) st have "getter_loop e b d n func cs ([], rv, rv_ad, rv3) s = (Inr st', s')"
      by simp
    from Cons.IH[OF this Cons.prems(2)] show ?thesis .
  next
    case (Some ptr)
    with Cons.prems(1) st obtain r sb sc sd rv1 ra r3 where
      f: "scoped_record (\<lambda>rec. jbind (invoke func ptr [] []) (\<lambda>r. ret (r, True))) s = (Inr r, sb)"
      and c: "ad_call_check_rv b n c rv r sb = (Inr rv1, sc)"
      and m: "getter_move r 0 (if rv_ad = [] then replicate (length r) False else rv_ad) rv3 sc = (Inr (ra, r3), sd)"
      and l: "getter_loop e b d n func cs (r, rv1, ra, r3) sd = (Inr st', s')"
      by (auto simp: run_simps)
    from scoped_record_invoke_grows[OF f Cons.prems(2)] have 1: "grows s sb" .
    from check_rv_grows[OF c] have 2: "grows sb sc" .
    from getter_move_state[OF m] have 3: "sd = sc" .
    from Cons.IH[OF l Cons.prems(2)] have 4: "grows sd s'" .
    from 1 2 3 4 show ?thesis by (blast intro: grows_trans)
  qed
qed

lemma getter_is_literal_Inr:
  "getter_is_literal rv3 i n js s = (Inr r, s') \<Longrightarrow>
     s' = s \<and> r = list_all (\<lambda>j. rv3 ! i = rv3 ! (i + j * n)) js"
proof (induction js arbitrary: r)
  case Nil
  then show ?case by (auto simp: run_simps)
next
  case (Cons j js)
  from Cons.prems obtain r0 where r0: "getter_is_literal rv3 i n js s = (Inr r0, s')"
    and r: "r = (rv3 ! i = rv3 ! (i + j * n) \<and> r0)"
    by (auto simp: run_simps)
  from Cons.IH[OF r0] r show ?case by simp
qed

lemma getter_entries_state:
  "getter_entries rv3 i n t js s = (Inr es, s') \<Longrightarrow> s' = s"
proof (induction js arbitrary: es)
  case Nil
  then show ?case by (auto simp: run_simps)
next
  case (Cons j js)
  from Cons.prems obtain h st sa entry sb es0 where
    a: "jit_var_state h s = (Inr st, sa)"
    and b: "(case st of
             Literal \<Rightarrow>
               jbind (jit_var_read_literal h) (\<lambda>x.
                 ret \<lparr>agg_offset = (j + 1) * t, agg_size = int t, agg_src = SrcLiteral x\<rparr>)
           | Unevaluated \<Rightarrow>
               ret \<lparr>agg_offset = (j + 1) * t, agg_size = - int t, agg_src = SrcData h\<rparr>
           | Evaluated \<Rightarrow>
               ret \<lparr>agg_offset = (j + 1) * t, agg_size = - int t, agg_src = SrcData h\<rparr>
           | _ \<Rightarrow> throw InvalidVarState) sa = (Inr entry, sb)"
    and c: "getter_entries rv3 i n t js sb = (Inr es0, s')"
    by (auto simp: run_simps)
  from jit_var_state_Inr[OF a] have sa: "sa = s" by simp
  from b have "sb = sa"
    by (cases st) (auto simp: run_simps dest: jit_var_read_literal_Inr)
  with sa c Cons.IH show ?case by simp
qed

lemma jit_var_eq: "vars s' = vars s \<Longrightarrow> jit_var s' h = jit_var s h"
  by (simp add: jit_var_def)

lemma aggs_grow_refl [simp]: "aggs_grow s s"
  by (simp add: aggs_grow_def)

lemma aggs_grow_trans: "aggs_grow s s1 \<Longrightarrow> aggs_grow s1 s2 \<Longrightarrow> aggs_grow s s2"
  by (auto simp: aggs_grow_def)

lemma jit_var_new_Inr:
  "jit_var_new v s = (Inr h, s') \<Longrightarrow>
     vars s' = vars s @ [v] \<and> aggregates s' = aggregates s \<and> jit_var s' h = Some v"
  using jit_var_new_ok[of v s h s'] by (auto simp: jit_var_new_def split: if_splits)

lemma jit_malloc_Inr:
  "jit_malloc n s = (Inr p, s') \<Longrightarrow> vars s' = vars s \<and> aggregates s' = aggregates s"
  by (auto simp: jit_malloc_def)

lemma jit_aggregate_Inr:
  "jit_aggregate p a s = (Inr u, s') \<Longrightarrow> vars s' = vars s \<and> aggregates s' = aggregates s @ [(p, a)]"
  by (auto simp: jit_aggregate_def)

lemma jit_var_gather_Inr:
  "jit_var_gather src idx m s = (Inr r, s') \<Longrightarrow>
     \<exists>vs vi vm v. jit_var s src = Some vs \<and> jit_var s idx = Some vi \<and> jit_var s m = Some vm
       \<and> v_def v = DGather (v_def vs) (v_def vi) (v_def vm) \<and> v_type v = v_type vs
       \<and> vars s' = vars s @ [v] \<and> aggregates s' = aggregates s \<and> jit_var s' r = Some v"
  unfolding jit_var_gather_def jbind_Inr jit_var_lookup_Inr
  by (fastforce dest: jit_var_new_Inr)

lemma jit_var_neq_Inr:
  "jit_var_neq a0 a1 s = (Inr r, s') \<Longrightarrow>
     \<exists>v0 v1 v. jit_var s a0 = Some v0 \<and> jit_var s a1 = Some v1
       \<and> v_def v = DNeq (v_def v0) (v_def v1)
       \<and> vars s' = vars s @ [v] \<and> jit_var s' r = Some v"
  unfolding jit_var_neq_def jbind_Inr jit_var_lookup_Inr
  by (fastforce dest: jit_var_new_Inr)

lemma jit_var_and_Inr:
  "jit_var_and a0 a1 s = (Inr r, s') \<Longrightarrow>
     \<exists>v0 v1 v. jit_var s a0 = Some v0 \<and> jit_var s a1 = Some v1
       \<and> v_def v = DAnd (v_def v0) (v_def v1)
       \<and> vars s' = vars s @ [v] \<and> jit_var s' r = Some v"
  unfolding jit_var_and_def jbind_Inr jit_var_lookup_Inr
  by (fastforce dest: jit_var_new_Inr)

lemma entry_of_grows: "entry_of s h j t en \<Longrightarrow> grows s s' \<Longrightarrow> entry_of s' h j t en"
  unfolding entry_of_def
  by (cases "agg_src en") (auto split: option.splits dest: grows_lookup)

lemma gatheredI:
  assumes "jit_var s (ir_part h) = Some v" and "v_def v = DGather (DMemMap p) di dm"
    and "(p, agg) \<in> set (aggregates s)" and "length agg = cc"
    and "\<forall>j<cc. entry_of s (rv3 ! (i + j * n)) j (jit_type_size (v_type v)) (agg ! j)"
  shows "gathered s di dm rv3 n cc i h"
  using assms unfolding gathered_def
  by (auto simp: list_ex_iff list_all_iff intro!: bexI[of _ "(p, agg)"])

lemma gatheredD:
  assumes "gathered s di dm rv3 n cc i h"
  shows "\<exists>v p agg. jit_var s (ir_part h) = Some v \<and> v_def v = DGather (DMemMap p) di dm
           \<and> (p, agg) \<in> set (aggregates s) \<and> length agg = cc
           \<and> (\<forall>j<cc. entry_of s (rv3 ! (i + j * n)) j (jit_type_size (v_type v)) (agg ! j))"
proof -
  from assms obtain v where v: "jit_var s (ir_part h) = Some v"
    by (auto simp: gathered_def split: option.splits)
  from assms v obtain src where src: "v_def v = DGather src di dm"
    by (cases "v_def v") (auto simp: gathered_def split: vdef.splits)
  from assms v src obtain p where p: "src = DMemMap p"
    by (cases src) (auto simp: gathered_def)
  from assms v src p show ?thesis
    by (auto simp: gathered_def list_ex_iff list_all_iff)
qed

lemma gathered_grows:
  assumes "gathered s di dm rv3 n cc i h" and "grows s s'" and "aggs_grow s s'"
  shows "gathered s' di dm rv3 n cc i h"
proof -
  from gatheredD[OF assms(1)] obtain v p agg where
    v: "jit_var s (ir_part h) = Some v" and d: "v_def v = DGather (DMemMap p) di dm"
    and a: "(p, agg) \<in> set (aggregates s)" and l: "length agg = cc"
    and en: "\<forall>j<cc. entry_of s (rv3 ! (i + j * n)) j (jit_type_size (v_type v)) (agg ! j)"
    by blast
  from a assms(3) have a': "(p, agg) \<in> set (aggregates s')" by (auto simp: aggs_grow_def)
  from en assms(2) have en': "\<forall>j<cc. entry_of s' (rv3 ! (i + j * n)) j (jit_type_size (v_type v)) (agg ! j)"
    by (blast intro: entry_of_grows)
  from gatheredI[OF grows_lookup[OF v assms(2)] d a' l en'] show ?thesis .
qed

lemma getter_entries_ok:
  "getter_entries rv3 i n t js s = (Inr es, s') \<Longrightarrow>
     length es = length js \<and>
     (\<forall>k<length js. entry_of s (rv3 ! (i + js ! k * n)) (js ! k) t (es ! k))"
proof (induction js arbitrary: es)
  case Nil
  then show ?case by (auto simp: run_simps)
next
  case (Cons j js)
  let ?h = "rv3 ! (i + j * n)"
  from Cons.prems obtain st sa entry sb es0 where
    a: "jit_var_state ?h s = (Inr st, sa)"
    and b: "(case st of
             Literal \<Rightarrow>
               jbind (jit_var_read_literal ?h) (\<lambda>x.
                 ret \<lparr>agg_offset = (j + 1) * t, agg_size = int t, agg_src = SrcLiteral x\<rparr>)
           | Unevaluated \<Rightarrow>
               ret \<lparr>agg_offset = (j + 1) * t, agg_size = - int t, agg_src = SrcData ?h\<rparr>
           | Evaluated \<Rightarrow>
               ret \<lparr>agg_offset = (j + 1) * t, agg_size = - int t, agg_src = SrcData ?h\<rparr>
           | _ \<Rightarrow> throw InvalidVarState) sa = (Inr entry, sb)"
    and c: "getter_entries rv3 i n t js sb = (Inr es0, s')" and es: "es = entry # es0"
    by (auto simp: run_simps)
  from jit_var_state_Inr[OF a] obtain v where sa: "sa = s" and v: "jit_var s ?h = Some v" "v_state v = st"
    by blast
  from b sa v have sb: "sb = s" and e: "entry_of s ?h j t entry"
    by (cases st; auto simp: run_simps entry_of_def dest!: jit_var_read_literal_Inr)+
  from Cons.IH[of es0] c sb have len: "length es0 = length js"
    and rest: "\<forall>k<length js. entry_of s (rv3 ! (i + js ! k * n)) (js ! k) t (es0 ! k)"
    by simp_all
  show ?case
  proof (intro conjI allI impI)
    show "length es = length (j # js)" using es len by simp
  next
    fix k assume "k < length (j # js)"
    then show "entry_of s (rv3 ! (i + (j # js) ! k * n)) ((j # js) ! k) t (es ! k)"
      using e rest es by (cases k) auto
  qed
qed

lemma getter_slot_gather:
  assumes run: "getter_slot b idx m cc rv2 rv3 i s = (Inr h, s')"
    and vi: "jit_var s idx = Some vi" and vm: "jit_var s m = Some vm"
  shows "grows s s' \<and> aggs_grow s s' \<and>
         (if all_same rv3 (length rv2) cc i then h = ucast (rv3 ! i)
          else gathered s' (v_def vi) (v_def vm) rv3 (length rv2) cc i h)"
proof -
  from run obtain lit s0 where
    lit: "getter_is_literal rv3 i (length rv2) [0..<cc] s = (Inr lit, s0)"
    and rest: "(if lit then jbind (vec_get rv3 i) (\<lambda>h. ret (ucast h))
        else
        jbind (vec_get rv2 i) (\<lambda>h2.
        jbind (jit_var_type (ir_part h2)) (\<lambda>ty.
        jbind (jit_malloc (jit_type_size ty * (cc + 1))) (\<lambda>ptr.
        jbind (jit_var_mem_map b ty ptr (cc + 1)) (\<lambda>buf.
        jbind (jit_malloc (16 * cc)) (\<lambda>agg_ptr.
        jbind (getter_entries rv3 i (length rv2) (jit_type_size ty) [0..<cc]) (\<lambda>agg.
        jbind (jit_aggregate ptr agg) (\<lambda>_.
        jbind (jit_var_gather buf idx m) (\<lambda>r. ret (ucast r)))))))))) s0 = (Inr h, s')"
    unfolding getter_slot_def by (auto simp: jbind_Inr)
  from getter_is_literal_Inr[OF lit] have s0: "s0 = s"
    and litv: "lit = all_same rv3 (length rv2) cc i"
    by (simp_all add: all_same_def)
  show ?thesis
  proof (cases lit)
    case True
    with rest s0 have "h = ucast (rv3 ! i)" and "s' = s" by (auto simp: run_simps)
    with True litv show ?thesis by simp
  next
    case False
    with rest s0 obtain ty sa ptr sb buf sc agg_ptr sd agg se u sf r where
      ty: "jit_var_type (ir_part (rv2 ! i)) s = (Inr ty, sa)" and
      ma: "jit_malloc (jit_type_size ty * (cc + 1)) sa = (Inr ptr, sb)" and
      mm: "jit_var_mem_map b ty ptr (cc + 1) sb = (Inr buf, sc)" and
      mb: "jit_malloc (16 * cc) sc = (Inr agg_ptr, sd)" and
      en: "getter_entries rv3 i (length rv2) (jit_type_size ty) [0..<cc] sd = (Inr agg, se)" and
      ag: "jit_aggregate ptr agg se = (Inr u, sf)" and
      ga: "jit_var_gather buf idx m sf = (Inr r, s')" and h: "h = ucast r"
      by (auto simp: run_simps)
    let ?bufv = "\<lparr>v_type = ty, v_backend = b, v_size = cc + 1, v_state = Evaluated, v_def = DMemMap ptr\<rparr>"
    from jit_var_type_Inr[OF ty] have sa: "sa = s" by simp
    from jit_malloc_Inr[OF ma] sa have sb: "vars sb = vars s" "aggregates sb = aggregates s" by simp_all
    from mm have "jit_var_new ?bufv sb = (Inr buf, sc)" by (simp add: jit_var_mem_map_def)
    from jit_var_new_Inr[OF this] sb
    have sc: "vars sc = vars s @ [?bufv]" "aggregates sc = aggregates s" "jit_var sc buf = Some ?bufv"
      by simp_all
    from jit_malloc_Inr[OF mb] sc
    have sd: "vars sd = vars s @ [?bufv]" "aggregates sd = aggregates s" by simp_all
    from sd(1) sc(1) have "jit_var sd buf = jit_var sc buf" by (intro jit_var_eq) simp
    with sc(3) have bufd: "jit_var sd buf = Some ?bufv" by simp
    from getter_entries_state[OF en] have se: "se = sd" .
    from getter_entries_ok[OF en]
    have len: "length agg = cc"
      and ent: "\<forall>j<cc. entry_of sd (rv3 ! (i + j * length rv2)) j (jit_type_size ty) (agg ! j)"
      by auto
    from jit_aggregate_Inr[OF ag] se sd
    have sf: "vars sf = vars s @ [?bufv]" "aggregates sf = aggregates s @ [(ptr, agg)]" by simp_all
    from sf(1) sd(1) have eqf: "\<And>x. jit_var sf x = jit_var sd x" by (intro jit_var_eq) simp
    have g_s_sd: "grows s sd" using sd(1) by (simp add: grows_def)
    from jit_var_gather_Inr[OF ga] obtain vs vi' vm' v where
      l1: "jit_var sf buf = Some vs" and l2: "jit_var sf idx = Some vi'" and l3: "jit_var sf m = Some vm'"
      and vd: "v_def v = DGather (v_def vs) (v_def vi') (v_def vm')" and vt: "v_type v = v_type vs"
      and s'v: "vars s' = vars sf @ [v]" and s'a: "aggregates s' = aggregates sf"
      and rv: "jit_var s' r = Some v"
      by blast
    from l1 eqf bufd have vs: "vs = ?bufv" by simp
    from l2 eqf grows_lookup[OF vi g_s_sd] have vi': "vi' = vi" by simp
    from l3 eqf grows_lookup[OF vm g_s_sd] have vm': "vm' = vm" by simp
    have g_sd_s': "grows sd s'" using s'v sf(1) sd(1) by (simp add: grows_def)
    have g: "grows s s'" using s'v sf(1) by (simp add: grows_def)
    have a: "aggs_grow s s'" using s'a sf(2) by (simp add: aggs_grow_def)
    have ent': "\<forall>j<cc. entry_of s' (rv3 ! (i + j * length rv2)) j (jit_type_size (v_type v)) (agg ! j)"
      using ent g_sd_s' vt vs by (auto intro: entry_of_grows)
    have "gathered s' (v_def vi) (v_def vm) rv3 (length rv2) cc i h"
    proof (rule gatheredI[where v = v and p = ptr and agg = agg])
      show "jit_var s' (ir_part h) = Some v" using rv h by simp
      show "v_def v = DGather (DMemMap ptr) (v_def vi) (v_def vm)" using vd vs vi' vm' by simp
      show "(ptr, agg) \<in> set (aggregates s')" using s'a sf(2) by simp
      show "length agg = cc" by (rule len)
      show "\<forall>j<cc. entry_of s' (rv3 ! (i + j * length rv2)) j (jit_type_size (v_type v)) (agg ! j)"
        by (rule ent')
    qed
    with False litv g a show ?thesis by simp
  qed
qed

lemma getter_assemble_slots:
  assumes "getter_assemble b idx m cc rv2 rv3 slots rv s = (Inr rv', s')"
    and "jit_var s idx = Some vi" and "jit_var s m = Some vm" and "distinct slots"
  shows "grows s s' \<and> aggs_grow s s' \<and> length rv' = length rv
         \<and> (\<forall>i. i \<notin> set slots \<longrightarrow> rv' ! i = rv ! i)
         \<and> (\<forall>i\<in>set slots. i < length rv \<and>
               (if all_same rv3 (length rv2) cc i then rv' ! i = ucast (rv3 ! i)
                else gathered s' (v_def vi) (v_def vm) rv3 (length rv2) cc i (rv' ! i)))"
  using assms
proof (induction slots arbitrary: rv s)
  case Nil
  then show ?case by (auto simp: run_simps)
next
  case (Cons i slots)
  from Cons.prems(1) obtain h s1 where il: "i < length rv"
    and h: "getter_slot b idx m cc rv2 rv3 i s = (Inr h, s1)"
    and r: "getter_assemble b idx m cc rv2 rv3 slots (rv[i := h]) s1 = (Inr rv', s')"
    by (auto simp: run_simps)
  from getter_slot_gather[OF h Cons.prems(2,3)]
  have g1: "grows s s1" and a1: "aggs_grow s s1"
    and p1: "if all_same rv3 (length rv2) cc i then h = ucast (rv3 ! i)
             else gathered s1 (v_def vi) (v_def vm) rv3 (length rv2) cc i h"
    by simp_all
  from Cons.prems(4) have d: "distinct slots" and ni: "i \<notin> set slots" by simp_all
  from Cons.IH[OF r grows_lookup[OF Cons.prems(2) g1] grows_lookup[OF Cons.prems(3) g1] d]
  have g2: "grows s1 s'" and a2: "aggs_grow s1 s'" and len: "length rv' = length rv"
    and keep: "\<forall>k. k \<notin> set slots \<longrightarrow> rv' ! k = rv[i := h] ! k"
    and rest: "\<forall>k\<in>set slots. k < length rv \<and>
               (if all_same rv3 (length rv2) cc k then rv' ! k = ucast (rv3 ! k)
                else gathered s' (v_def vi) (v_def vm) rv3 (length rv2) cc k (rv' ! k))"
    by simp_all
  from keep ni il have rvi: "rv' ! i = h" by simp
  have pi: "if all_same rv3 (length rv2) cc i then rv' ! i = ucast (rv3 ! i)
            else gathered s' (v_def vi) (v_def vm) rv3 (length rv2) cc i (rv' ! i)"
    using p1 rvi gathered_grows[OF _ g2 a2] by (auto split: if_splits)
  show ?case
  proof (intro conjI allI ballI impI)
    show "grows s s'" using g1 g2 by (rule grows_trans)
    show "aggs_grow s s'" using a1 a2 by (rule aggs_grow_trans)
    show "length rv' = length rv" by (rule len)
  next
    fix k assume "k \<notin> set (i # slots)"
    then show "rv' ! k = rv ! k" using keep by simp
  next
    fix k assume "k \<in> set (i # slots)"
    then show "k < length rv" using il rest by auto
  next
    fix k assume k: "k \<in> set (i # slots)"
    show "if all_same rv3 (length rv2) cc k then rv' ! k = ucast (rv3 ! k)
          else gathered s' (v_def vi) (v_def vm) rv3 (length rv2) cc k (rv' ! k)"
    proof (cases "k = i")
      case True
      with pi show ?thesis by simp
    next
      case False
      with k rest show ?thesis by simp
    qed
  qed
qed

lemma getter_prologue:
  assumes "jbind (jit_var_u32 backend 0) (\<lambda>n. jbind (jit_var_neq index n) (jit_var_and mask0)) s
             = (Inr msk, s1)"
  shows "grows s s1 \<and>
         (\<exists>vi vm vk. jit_var s1 index = Some vi \<and> jit_var s1 mask0 = Some vm
            \<and> jit_var s1 msk = Some vk
            \<and> v_def vk = DAnd (v_def vm) (DNeq (v_def vi) (DLiteral 0)))"
proof -
  from assms obtain n sa nn sb where
    a: "jit_var_u32 backend 0 s = (Inr n, sa)"
    and b: "jit_var_neq index n sa = (Inr nn, sb)"
    and c: "jit_var_and mask0 nn sb = (Inr msk, s1)"
    by (auto simp: jbind_Inr)
  let ?lit = "\<lparr>v_type = UInt32, v_backend = backend, v_size = 1, v_state = Literal, v_def = DLiteral 0\<rparr>"
  from a have "jit_var_literal backend UInt32 0 1 s = (Inr n, sa)" by (simp add: jit_var_u32_def)
  from jit_var_literal_Inr[OF this]
  have n: "jit_var sa n = Some ?lit" and sa: "vars sa = vars s @ [?lit]" by simp_all
  from jit_var_neq_Inr[OF b] obtain v0 v1 v where
    v0: "jit_var sa index = Some v0" and v1: "jit_var sa n = Some v1"
    and vd: "v_def v = DNeq (v_def v0) (v_def v1)"
    and sb: "vars sb = vars sa @ [v]" and nn: "jit_var sb nn = Some v"
    by blast
  from v1 n have v1d: "v_def v1 = DLiteral 0" by auto
  from jit_var_and_Inr[OF c] obtain w0 w1 w where
    w0: "jit_var sb mask0 = Some w0" and w1: "jit_var sb nn = Some w1"
    and wd: "v_def w = DAnd (v_def w0) (v_def w1)"
    and s1: "vars s1 = vars sb @ [w]" and m: "jit_var s1 msk = Some w"
    by blast
  from w1 nn have w1v: "w1 = v" by simp
  have g_sa_s1: "grows sa s1" using sb s1 by (simp add: grows_def)
  have g_sb_s1: "grows sb s1" using s1 by (simp add: grows_def)
  have "grows s s1" using sa sb s1 by (simp add: grows_def)
  moreover have "jit_var s1 index = Some v0" using grows_lookup[OF v0 g_sa_s1] .
  moreover have "jit_var s1 mask0 = Some w0" using grows_lookup[OF w0 g_sb_s1] .
  moreover have "v_def w = DAnd (v_def w0) (DNeq (v_def v0) (DLiteral 0))"
    using wd w1v vd v1d by simp
  ultimately show ?thesis using m by blast
qed

lemma gather_null_lane:
  "eval mem rho di k = 0 \<Longrightarrow> eval mem rho (DGather src di (DAnd dm (DNeq di (DLiteral 0)))) k = 0"
  by simp

section \<open>Theorems about the result of the getter strategy\<close>

text \<open>
  Take a dispatch through the getter strategy that returns, with a callback that extends
  the graph. \<open>msk\<close> is the node the prologue builds from the mask and the test
  \<open>index \<noteq> 0\<close>, and \<open>rv2\<close>, \<open>rv3\<close> are what the loop over the callables leaves:
  \<open>rv2\<close> is the result of the last callable, and it is empty when that callable was
  skipped. The second loop runs over the slots below the size of \<open>rv2\<close>. Each of them for
  which the callables did not all return the same handle is a gather from the buffer that
  the aggregation packs with the value of each callable, with the instance index as index
  and under the mask \<open>mask AND (index \<noteq> 0)\<close>, and so is zero in every lane in which the
  instance index is 0; a slot for which all callables returned the same handle is that
  handle.
\<close>

lemma getter_slots_below_last_result:
  assumes run: "ad_call_getter e backend domain sz index mask0 cc args rv rv_ad func s
                  = (Inr (rv', rv_ad'), s')"
    and ext: "extends_graph func"
  shows "\<exists>msk s1 rv2 rv1 rv3 s2 vi vm.
      jbind (jit_var_u32 backend 0) (\<lambda>n. jbind (jit_var_neq index n) (jit_var_and mask0)) s
        = (Inr msk, s1)
    \<and> getter_loop e backend domain sz func [0..<cc] ([], rv, rv_ad, []) s1
        = (Inr (rv2, rv1, rv_ad', rv3), s2)
    \<and> jit_var s' index = Some vi \<and> jit_var s' mask0 = Some vm
    \<and> length rv' = length rv1
    \<and> (\<forall>i<length rv2.
          i < length rv' \<and>
          (if all_same rv3 (length rv2) cc i then rv' ! i = ucast (rv3 ! i)
           else gathered s' (v_def vi) (DAnd (v_def vm) (DNeq (v_def vi) (DLiteral 0)))
                  rv3 (length rv2) cc i (rv' ! i)
                \<and> (\<exists>v. jit_var s' (ir_part (rv' ! i)) = Some v \<and>
                      (\<forall>mem rho k. eval mem rho (v_def vi) k = 0
                          \<longrightarrow> eval mem rho (v_def v) k = 0))))"
proof -
  from run obtain n sa nn sb msk s1 rv2 rv1 rv3 s2 where
    a: "jit_var_u32 backend 0 s = (Inr n, sa)"
    and b: "jit_var_neq index n sa = (Inr nn, sb)"
    and c: "jit_var_and mask0 nn sb = (Inr msk, s1)"
    and l: "getter_loop e backend domain sz func [0..<cc] ([], rv, rv_ad, []) s1
              = (Inr (rv2, rv1, rv_ad', rv3), s2)"
    and as: "getter_assemble backend index msk cc rv2 rv3 [0..<length rv2] rv1 s2 = (Inr rv', s')"
    unfolding ad_call_getter_def by (auto simp: run_simps)
  have pro: "jbind (jit_var_u32 backend 0) (\<lambda>n. jbind (jit_var_neq index n) (jit_var_and mask0)) s
               = (Inr msk, s1)"
    using a b c by (auto simp: jbind_Inr)
  from getter_prologue[OF pro] obtain vi vm vk where
    vi: "jit_var s1 index = Some vi" and vm: "jit_var s1 mask0 = Some vm"
    and vk: "jit_var s1 msk = Some vk"
    and vkd: "v_def vk = DAnd (v_def vm) (DNeq (v_def vi) (DLiteral 0))"
    by blast
  from getter_loop_grows[OF l ext] have g12: "grows s1 s2" .
  from getter_assemble_slots[OF as grows_lookup[OF vi g12] grows_lookup[OF vk g12]]
  have g2: "grows s2 s'" and len: "length rv' = length rv1"
    and slots: "\<forall>i\<in>set [0..<length rv2]. i < length rv1 \<and>
               (if all_same rv3 (length rv2) cc i then rv' ! i = ucast (rv3 ! i)
                else gathered s' (v_def vi) (v_def vk) rv3 (length rv2) cc i (rv' ! i))"
    by simp_all
  have g1: "grows s1 s'" using g12 g2 by (rule grows_trans)
  have "\<forall>i<length rv2.
          i < length rv' \<and>
          (if all_same rv3 (length rv2) cc i then rv' ! i = ucast (rv3 ! i)
           else gathered s' (v_def vi) (DAnd (v_def vm) (DNeq (v_def vi) (DLiteral 0)))
                  rv3 (length rv2) cc i (rv' ! i)
                \<and> (\<exists>v. jit_var s' (ir_part (rv' ! i)) = Some v \<and>
                      (\<forall>mem rho k. eval mem rho (v_def vi) k = 0
                          \<longrightarrow> eval mem rho (v_def v) k = 0)))"
  proof (intro allI impI)
    fix i assume i: "i < length rv2"
    with slots have il: "i < length rv1"
      and p: "if all_same rv3 (length rv2) cc i then rv' ! i = ucast (rv3 ! i)
              else gathered s' (v_def vi) (v_def vk) rv3 (length rv2) cc i (rv' ! i)"
      by simp_all
    show "i < length rv' \<and>
          (if all_same rv3 (length rv2) cc i then rv' ! i = ucast (rv3 ! i)
           else gathered s' (v_def vi) (DAnd (v_def vm) (DNeq (v_def vi) (DLiteral 0)))
                  rv3 (length rv2) cc i (rv' ! i)
                \<and> (\<exists>v. jit_var s' (ir_part (rv' ! i)) = Some v \<and>
                      (\<forall>mem rho k. eval mem rho (v_def vi) k = 0
                          \<longrightarrow> eval mem rho (v_def v) k = 0)))"
    proof (cases "all_same rv3 (length rv2) cc i")
      case True
      with p il len show ?thesis by simp
    next
      case False
      with p have gt: "gathered s' (v_def vi) (DAnd (v_def vm) (DNeq (v_def vi) (DLiteral 0)))
                         rv3 (length rv2) cc i (rv' ! i)"
        by (simp add: vkd)
      from gatheredD[OF gt] obtain v p where
        v: "jit_var s' (ir_part (rv' ! i)) = Some v"
        and vd: "v_def v = DGather (DMemMap p) (v_def vi) (DAnd (v_def vm) (DNeq (v_def vi) (DLiteral 0)))"
        by blast
      have "\<forall>mem rho k. eval mem rho (v_def vi) k = 0 \<longrightarrow> eval mem rho (v_def v) k = 0"
        by (simp add: vd)
      with v gt False il len show ?thesis by simp
    qed
  qed
  with pro l grows_lookup[OF vi g1] grows_lookup[OF vm g1] len show ?thesis by blast
qed

text \<open>
  Claim C4 fails on the code. The registry of the domain has the id bound 2; the instance
  with id 1 is registered and the one with id 2 is not. The getter strategy calls the
  callback for instance 1, which returns the literal 6 (handle 7), and
  \<open>ad_call_check_rv\<close> fills \<open>rv\<close> with a zero literal (handle 8). The iteration for
  id 2 clears \<open>rv2\<close> and leaves the loop body at \<open>continue\<close>, so the second loop, which
  runs up to the size of \<open>rv2\<close>, assembles no slot: the dispatch returns normally with the
  zero literal as output slot, which is neither a gather from the buffer nor the handle
  the callable returned.
\<close>

theorem getter_last_unregistered_returns_zero_literal:
  "fst (ad_call last_unregistered LLVM (Some ''Base'') 0 True 1 2 [] [] fresh_literal True True
          example_state)
     = (Inr (True, [8]), [])
   \<and> jit_var (snd (ad_call last_unregistered LLVM (Some ''Base'') 0 True 1 2 [] [] fresh_literal
                       True True example_state)) 8
     = Some \<lparr>v_type = Float32, v_backend = LLVM, v_size = 4, v_state = Literal, v_def = DLiteral 0\<rparr>
   \<and> jit_var (snd (ad_call last_unregistered LLVM (Some ''Base'') 0 True 1 2 [] [] fresh_literal
                       True True example_state)) 7
     = Some \<lparr>v_type = Float32, v_backend = LLVM, v_size = 1, v_state = Literal, v_def = DLiteral 6\<rparr>
   \<and> trace (snd (ad_call last_unregistered LLVM (Some ''Base'') 0 True 1 2 [] [] fresh_literal
                     True True example_state))
     = [Invoke 1 []]"
  by (simp add: dispatch_defs model_defs Let_def upt_conv_Cons fresh_literal_def
      last_unregistered_def)

end
